theory Spec2Isabelle
  imports Main "HOL-Library.Sublist"
begin

section \<open>Go strings as byte lists\<close>

text \<open>
  A Go \<open>string\<close> is a sequence of bytes; it is modelled as a \<open>string\<close> (a list of 8-bit
  characters). The functions of package \<open>strings\<close> that nscope calls are written out below.
  \<open>HasPrefix\<close>, \<open>HasSuffix\<close>, \<open>TrimPrefix\<close>, \<open>TrimSuffix\<close>, \<open>Contains\<close>, \<open>Index\<close>,
  \<open>LastIndex\<close>, \<open>Split\<close> and \<open>Join\<close> work on bytes in Go as they do here. \<open>TrimSpace\<close>
  and \<open>Fields\<close> are modelled on the white space of Go's \<open>asciiSpace\<close> table (tab, line
  feed, vertical tab, form feed, carriage return, space). \<open>ToLower\<close> and \<open>EqualFold\<close>
  follow the section on the libraries: they are written out on ASCII strings and left
  open on all others.
\<close>

definition HasPrefix :: "string \<Rightarrow> string \<Rightarrow> bool" where
  "HasPrefix s p = prefix p s"

definition HasSuffix :: "string \<Rightarrow> string \<Rightarrow> bool" where
  "HasSuffix s suf = suffix suf s"

definition TrimPrefix :: "string \<Rightarrow> string \<Rightarrow> string" where
  "TrimPrefix s p = (if HasPrefix s p then drop (length p) s else s)"

definition TrimSuffix :: "string \<Rightarrow> string \<Rightarrow> string" where
  "TrimSuffix s suf = (if HasSuffix s suf then take (length s - length suf) s else s)"

primrec Contains :: "string \<Rightarrow> string \<Rightarrow> bool" where
  "Contains [] sub = (sub = [])"
| "Contains (c # cs) sub = (prefix sub (c # cs) \<or> Contains cs sub)"

text \<open>
  \<open>Index\<close> and \<open>LastIndex\<close> return \<open>-1\<close> when the substring does not occur. Both scan
  the string from the left and count the position; \<open>LastIndex\<close> keeps the last hit.
\<close>

primrec indexFrom :: "nat \<Rightarrow> string \<Rightarrow> string \<Rightarrow> int" where
  "indexFrom n [] sub = (if sub = [] then int n else -1)"
| "indexFrom n (c # cs) sub = (if prefix sub (c # cs) then int n else indexFrom (Suc n) cs sub)"

definition Index :: "string \<Rightarrow> string \<Rightarrow> int" where
  "Index s sub = indexFrom 0 s sub"

primrec lastIndexFrom :: "nat \<Rightarrow> int \<Rightarrow> string \<Rightarrow> string \<Rightarrow> int" where
  "lastIndexFrom n found [] sub = (if sub = [] then int n else found)"
| "lastIndexFrom n found (c # cs) sub =
     lastIndexFrom (Suc n) (if prefix sub (c # cs) then int n else found) cs sub"

definition LastIndex :: "string \<Rightarrow> string \<Rightarrow> int" where
  "LastIndex s sub = lastIndexFrom 0 (-1) s sub"

text \<open>
  \<open>strings.Split(s, sep)\<close>: every separator the program passes is a single byte (\<open>"."\<close>
  or \<open>":"\<close>), so the separator is a character here. The result is never empty:
  splitting the empty string gives one empty piece.
\<close>

primrec Split :: "string \<Rightarrow> char \<Rightarrow> string list" where
  "Split [] sep = [[]]"
| "Split (c # cs) sep =
     (case Split cs sep of
        [] \<Rightarrow> [[c]]
      | piece # pieces \<Rightarrow> if c = sep then [] # piece # pieces else (c # piece) # pieces)"

fun Join :: "string list \<Rightarrow> string \<Rightarrow> string" where
  "Join [] sep = []"
| "Join [x] sep = x"
| "Join (x # y # ys) sep = x @ sep @ Join (y # ys) sep"

definition isSpace :: "char \<Rightarrow> bool" where
  "isSpace c = (c \<in> set [CHR 0x09, CHR 0x0A, CHR 0x0B, CHR 0x0C, CHR 0x0D, CHR '' ''])"

definition TrimSpace :: "string \<Rightarrow> string" where
  "TrimSpace s = rev (dropWhile isSpace (rev (dropWhile isSpace s)))"

function Fields :: "string \<Rightarrow> string list" where
  "Fields s =
     (case dropWhile isSpace s of
        [] \<Rightarrow> []
      | c # cs \<Rightarrow> takeWhile (\<lambda>x. \<not> isSpace x) (c # cs)
                 # Fields (dropWhile (\<lambda>x. \<not> isSpace x) (c # cs)))"
  by pat_completeness auto
termination
proof (relation "measure length")
  show "wf (measure length)" by simp
next
  fix s :: string and c cs
  assume d: "dropWhile isSpace s = c # cs"
  have "\<not> isSpace c"
    using d by (metis hd_dropWhile list.distinct(1) list.sel(1))
  then have "length (dropWhile (\<lambda>x. \<not> isSpace x) (c # cs)) \<le> length cs"
    by (simp add: length_dropWhile_le)
  moreover have "length (c # cs) \<le> length s"
    using d by (metis length_dropWhile_le)
  ultimately show "(dropWhile (\<lambda>x. \<not> isSpace x) (c # cs), s) \<in> measure length"
    by simp
qed

declare Fields.simps [simp del]

definition lowerByte :: "char \<Rightarrow> char" where
  "lowerByte c =
     (let n = (of_char c :: nat) in if 65 \<le> n \<and> n \<le> 90 then char_of (n + 32) else c)"

definition isASCII :: "string \<Rightarrow> bool" where
  "isASCII s = list_all (\<lambda>c. (of_char c :: nat) < 128) s"

section \<open>The libraries outside the repository\<close>

text \<open>
  \<open>net.SplitHostPort\<close> of Go's standard library is pure string work and is written out:
  the port starts after the last colon; a host that starts with \<open>[\<close> must close with the
  first \<open>]\<close> right before that colon; an unbracketed host must not hold a colon; no
  other bracket may occur. \<open>None\<close> is the error return.
\<close>

definition SplitHostPort :: "string \<Rightarrow> (string \<times> string) option" where
  "SplitHostPort hostport =
     (let i = LastIndex hostport '':'' in
      if i < 0 then None
      else if HasPrefix hostport ''['' then
        (let e = Index hostport '']'' in
         if e < 0 then None
         else if e + 1 = int (length hostport) then None
         else if e + 1 = i then
           (if Contains (drop 1 hostport) ''['' then None
            else if Contains (drop (nat e + 1) hostport) '']'' then None
            else Some (take (nat e - 1) (drop 1 hostport), drop (nat i + 1) hostport))
         else None)
      else
        (let host = take (nat i) hostport in
         if Contains host '':'' then None
         else if Contains hostport ''['' then None
         else if Contains hostport '']'' then None
         else Some (host, drop (nat i + 1) hostport)))"

text \<open>
  The other library calls are parameters of the model, collected in one record: the
  program is verified for every behaviour of
  \<^item> \<open>net.ParseIP\<close> (\<open>None\<close> is Go's \<open>nil\<close>) and \<open>IP.String\<close>; \<open>net.ParseIP\<close> returns
    every address in its 16-byte form, on which \<open>IP.Equal\<close> is equality of the value;
  \<^item> \<open>idna.ToASCII\<close> (\<open>None\<close> when it returns an error: the program then keeps its
    input);
  \<^item> \<open>url.Parse\<close>, of whose result the program reads only the field \<open>Host\<close> (\<open>None\<close>
    when it returns an error);
  \<^item> \<open>strings.ToLower\<close> and \<open>strings.EqualFold\<close> on strings that hold a byte outside
    ASCII, where they follow the case tables of Unicode.
\<close>

type_synonym IP = "nat list"

record lib =
  ParseIP :: "string \<Rightarrow> IP option"
  IPString :: "IP \<Rightarrow> string"
  ToASCII :: "string \<Rightarrow> string option"
  URLParseHost :: "string \<Rightarrow> string option"
  ToLowerUnicode :: "string \<Rightarrow> string"
  EqualFoldUnicode :: "string \<Rightarrow> string \<Rightarrow> bool"

text \<open>
  On a string of ASCII bytes \<open>strings.ToLower\<close> maps the letters \<open>A\<close>..\<open>Z\<close> to
  \<open>a\<close>..\<open>z\<close> and keeps every other byte; on two strings of ASCII bytes
  \<open>strings.EqualFold\<close> compares the lower-case forms. On every other string both are
  what the library says.
\<close>

definition ToLower :: "lib \<Rightarrow> string \<Rightarrow> string" where
  "ToLower L s = (if isASCII s then map lowerByte s else ToLowerUnicode L s)"

definition EqualFold :: "lib \<Rightarrow> string \<Rightarrow> string \<Rightarrow> bool" where
  "EqualFold L s t =
     (if isASCII s \<and> isASCII t then map lowerByte s = map lowerByte t
      else EqualFoldUnicode L s t)"

section \<open>The scope entry\<close>

datatype scopeKind = scopeExact | scopeLeadingWildcard | scopePatternWildcard

record scopeEntry =
  raw :: string
  kind :: scopeKind
  base :: string
  port :: string
  patternLabels :: "string list"

section \<open>Splitting host and port\<close>

definition stripBrackets :: "string \<Rightarrow> string" where
  "stripBrackets s = TrimSuffix (TrimPrefix s ''['') '']''"

definition stripPort :: "lib \<Rightarrow> string \<Rightarrow> string \<times> string" where
  "stripPort L h0 =
     (let h = TrimSpace h0 in
      if h = [] then ([], [])
      else if HasPrefix h ''['' \<and> LastIndex h '']'' \<noteq> -1 then
        (let idx = nat (LastIndex h '']'');
             host = take (idx + 1) h;
             rest = drop (idx + 1) h
         in if HasPrefix rest '':'' then (host, TrimPrefix rest '':'') else (host, []))
      else
        (case SplitHostPort h of
           Some (hst, prt) \<Rightarrow> (hst, prt)
         | None \<Rightarrow>
             (let parts = Split h CHR '':'' in
              if length parts > 1 \<and> ParseIP L (last parts) = None
              then (Join (butlast parts) '':'', last parts)
              else (h, []))))"

text \<open>The step every caller takes after \<open>stripPort\<close>: a host wrapped in brackets loses them.\<close>

definition unbracket :: "string \<Rightarrow> string" where
  "unbracket h = (if HasPrefix h ''['' \<and> HasSuffix h '']'' then stripBrackets h else h)"

text \<open>\<open>if ascii, err := idna.ToASCII(h); err == nil { h = ascii }\<close>\<close>

definition toASCIIOrKeep :: "lib \<Rightarrow> string \<Rightarrow> string" where
  "toASCIIOrKeep L h = (case ToASCII L h of Some ascii \<Rightarrow> ascii | None \<Rightarrow> h)"

section \<open>Parsing a scope line\<close>

text \<open>
  One round of the loop \<open>for i := range labels\<close> of \<open>parseScopeLine\<close>. The range is
  fixed when the loop starts; a label with a port appends the marker \<open>__PORT__:p\<close> to the
  slice, behind the labels the loop visits.
\<close>

definition labelStep :: "lib \<Rightarrow> string list \<Rightarrow> nat \<Rightarrow> string list" where
  "labelStep L labels i =
     (let lbl = TrimSpace (labels ! i) in
      if lbl = [] then labels[i := lbl]
      else if Contains lbl '':'' then
        (let (h, p) = stripPort L lbl;
             h1 = toASCIIOrKeep L (unbracket (TrimSuffix h ''.''));
             labels1 = labels[i := h1]
         in if p \<noteq> [] then labels1 @ [''__PORT__:'' @ p] else labels1)
      else
        (let lbl1 = (if lbl \<noteq> ''*'' then toASCIIOrKeep L lbl else lbl)
         in labels[i := ToLower L lbl1]))"

definition parseScopeLine :: "lib \<Rightarrow> string \<Rightarrow> scopeEntry" where
  "parseScopeLine L orig =
     (let line = TrimSuffix (TrimSpace orig) ''.'' in
      if HasPrefix line ''*.'' then
        (let without = TrimPrefix line ''*.'';
             (host, p) = stripPort L without;
             host1 = ToLower L (toASCIIOrKeep L (unbracket (TrimSuffix host ''.'')))
         in \<lparr>raw = orig, kind = scopeLeadingWildcard, base = host1, port = p,
             patternLabels = []\<rparr>)
      else if Contains line ''*'' then
        (let labels0 = Split line CHR ''.'';
             labels = foldl (labelStep L) labels0 [0..<length labels0];
             (p, labels1) =
               (if length labels > 0 \<and> HasPrefix (last labels) ''__PORT__:''
                then (TrimPrefix (last labels) ''__PORT__:'', butlast labels)
                else ([], labels))
         in \<lparr>raw = orig, kind = scopePatternWildcard, base = [], port = p,
             patternLabels = labels1\<rparr>)
      else
        (let (host, p) = stripPort L line;
             host1 = unbracket (TrimSuffix host ''.'')
         in case ParseIP L host1 of
              Some ip \<Rightarrow> \<lparr>raw = orig, kind = scopeExact, base = IPString L ip, port = p,
                          patternLabels = []\<rparr>
            | None \<Rightarrow> \<lparr>raw = orig, kind = scopeExact,
                        base = ToLower L (toASCIIOrKeep L host1), port = p,
                        patternLabels = []\<rparr>))"

section \<open>Loading the scope file\<close>

text \<open>
  \<open>loadScope\<close> reads the file line by line. The file system is outside the model: the
  argument is what \<open>os.Open\<close> and the scanner deliver, an error or the lines of the file
  followed by the scanner's final error, if any.
\<close>

datatype error = OpenError | ReadError

definition cleanScopeLine :: "string \<Rightarrow> string option" where
  "cleanScopeLine rawline =
     (let trimmed = TrimSpace rawline in
      if trimmed = [] then None
      else if HasPrefix trimmed ''#'' then None
      else (let trimmed1 =
                  (if Index trimmed ''#'' \<noteq> -1
                   then TrimSpace (take (nat (Index trimmed ''#'')) trimmed)
                   else trimmed)
            in if trimmed1 = [] then None else Some trimmed1))"

fun scanScope :: "lib \<Rightarrow> string list \<Rightarrow> scopeEntry list \<Rightarrow> scopeEntry list" where
  "scanScope L [] out = out"
| "scanScope L (rawline # rest) out =
     (case cleanScopeLine rawline of
        None \<Rightarrow> scanScope L rest out
      | Some trimmed \<Rightarrow> scanScope L rest (out @ [parseScopeLine L trimmed]))"

definition loadScope :: "lib \<Rightarrow> error + (string list \<times> error option) \<Rightarrow> error + scopeEntry list" where
  "loadScope L file =
     (case file of
        Inl err \<Rightarrow> Inl err
      | Inr (lines, scanErr) \<Rightarrow>
          (let out = scanScope L lines [] in
           case scanErr of Some err \<Rightarrow> Inl err | None \<Rightarrow> Inr out))"

section \<open>Extracting and normalizing the host of an input line\<close>

text \<open>
  The four lines that end every branch of \<open>extractHostFromLine\<close>: split host and port,
  strip the brackets of a wrapped host, return with \<open>ok = true\<close>.
\<close>

definition hostPortOf :: "lib \<Rightarrow> string \<Rightarrow> string \<times> string \<times> bool" where
  "hostPortOf L s = (let (h, p) = stripPort L s in (unbracket h, p, True))"

definition extractHostFromLine :: "lib \<Rightarrow> string \<Rightarrow> string \<times> string \<times> bool" where
  "extractHostFromLine L line0 =
     (let line = TrimSpace line0 in
      if line = [] \<or> HasPrefix line ''#'' then ([], [], False)
      else case Fields line of
        [] \<Rightarrow> ([], [], False)
      | first # _ \<Rightarrow>
          if Contains first ''://'' then
            (case URLParseHost L first of
               None \<Rightarrow> ([], [], False)
             | Some uhost \<Rightarrow> if uhost = [] then ([], [], False) else hostPortOf L uhost)
          else if HasPrefix first ''['' \<and> Contains first '']'' then hostPortOf L first
          else if Contains first ''/'' then
            (case URLParseHost L (''http://'' @ first) of
               Some uhost \<Rightarrow> if uhost \<noteq> [] then hostPortOf L uhost else hostPortOf L first
             | None \<Rightarrow> hostPortOf L first)
          else hostPortOf L first)"

text \<open>\<open>normalizeHost\<close> returns a string and an error; every return gives the error \<open>nil\<close>.\<close>

definition normalizeHost :: "lib \<Rightarrow> string \<Rightarrow> string \<times> error option" where
  "normalizeHost L h0 =
     (let h = TrimSpace h0 in
      if h = [] then ([], None)
      else (let h1 = TrimSuffix h ''.'' in
            case ParseIP L h1 of
              Some ip \<Rightarrow> (IPString L ip, None)
            | None \<Rightarrow> (ToLower L (toASCIIOrKeep L h1), None)))"

section \<open>Matching\<close>

definition equalHost :: "lib \<Rightarrow> string \<Rightarrow> string \<Rightarrow> bool" where
  "equalHost L a b = EqualFold L (TrimSuffix a ''.'') (TrimSuffix b ''.'')"

definition matchLeadingWildcard :: "lib \<Rightarrow> string \<Rightarrow> string \<Rightarrow> bool" where
  "matchLeadingWildcard L host b =
     (if equalHost L host b then True
      else if HasSuffix host (''.'' @ b) then True
      else False)"

text \<open>
  The loop of \<open>matchPatternWildcard\<close> runs over the positions of the pattern; it is
  entered only when host and pattern have the same number of labels, so it walks both
  lists in step.
\<close>

fun matchLabels :: "lib \<Rightarrow> string list \<Rightarrow> string list \<Rightarrow> bool" where
  "matchLabels L hl [] = True"
| "matchLabels L hl (pat # pattern) =
     (let p = ToLower L (TrimSpace pat) in
      if p = ''*'' then (if hd hl = [] then False else matchLabels L (tl hl) pattern)
      else if \<not> EqualFold L (hd hl) p then False
      else matchLabels L (tl hl) pattern)"

definition matchPatternWildcard :: "lib \<Rightarrow> string \<Rightarrow> string list \<Rightarrow> bool" where
  "matchPatternWildcard L host pattern =
     (let hl = Split (TrimSuffix host ''.'') CHR ''.'' in
      if length hl \<noteq> length pattern then False else matchLabels L hl pattern)"

text \<open>
  The port test every branch of \<open>matchHost\<close> makes once the host test of an entry has
  succeeded: \<open>True\<close> is \<open>return true\<close>, \<open>False\<close> is \<open>continue\<close>.
\<close>

definition portAccepts :: "scopeEntry \<Rightarrow> string \<Rightarrow> bool" where
  "portAccepts e p = (if port e \<noteq> [] then (if port e = p then True else False) else True)"

text \<open>The loop over the scope for a host that is an IP literal.\<close>

fun matchIP :: "lib \<Rightarrow> IP \<Rightarrow> string \<Rightarrow> string \<Rightarrow> scopeEntry list \<Rightarrow> bool" where
  "matchIP L ip host p [] = False"
| "matchIP L ip host p (e # scope) =
     (if kind e \<noteq> scopeExact then matchIP L ip host p scope
      else if (case ParseIP L (base e) of Some otherIP \<Rightarrow> otherIP = ip | None \<Rightarrow> False) then
        (if portAccepts e p then True else matchIP L ip host p scope)
      else if EqualFold L (base e) host then
        (if portAccepts e p then True else matchIP L ip host p scope)
      else matchIP L ip host p scope)"

text \<open>The loop over the scope for every other host.\<close>

fun matchName :: "lib \<Rightarrow> string \<Rightarrow> string \<Rightarrow> scopeEntry list \<Rightarrow> bool" where
  "matchName L host p [] = False"
| "matchName L host p (e # scope) =
     (case kind e of
        scopeExact \<Rightarrow>
          if equalHost L host (base e) then
            (if portAccepts e p then True else matchName L host p scope)
          else matchName L host p scope
      | scopeLeadingWildcard \<Rightarrow>
          if matchLeadingWildcard L host (base e) then
            (if portAccepts e p then True else matchName L host p scope)
          else matchName L host p scope
      | scopePatternWildcard \<Rightarrow>
          if matchPatternWildcard L host (patternLabels e) then
            (if portAccepts e p then True else matchName L host p scope)
          else matchName L host p scope)"

definition matchHost :: "lib \<Rightarrow> string \<Rightarrow> string \<Rightarrow> scopeEntry list \<Rightarrow> bool" where
  "matchHost L host p scope =
     (if host = [] then False
      else case ParseIP L host of
        Some ip \<Rightarrow> matchIP L ip host p scope
      | None \<Rightarrow> matchName L host p scope)"

section \<open>Filtering the input\<close>

text \<open>
  \<open>processLines\<close> scans the reader line by line and writes the lines it keeps. The reader
  and the writer are outside the model: the argument is the list of lines the scanner
  delivers, the result is the list of lines written, in order.
  The scanner's final error is returned unchanged and is left out.
\<close>

fun processLines :: "lib \<Rightarrow> string list \<Rightarrow> scopeEntry list \<Rightarrow> bool \<Rightarrow> string list" where
  "processLines L [] scope reverse = []"
| "processLines L (line # rest) scope reverse =
     (let (host, p, ok) = extractHostFromLine L line in
      if \<not> ok then processLines L rest scope reverse
      else (let (normHost, err) = normalizeHost L host in
            if err \<noteq> None \<or> normHost = [] then processLines L rest scope reverse
            else (let matched = matchHost L normHost p scope in
                  (if matched \<and> \<not> reverse then [line] else [])
                  @ (if \<not> matched \<and> reverse then [line] else [])
                  @ processLines L rest scope reverse)))"

section \<open>An executable instance of the libraries\<close>

text \<open>
  The examples below run the program on concrete lines, which needs concrete library
  functions. \<open>reflib\<close> is a small instance that follows Go on the inputs the examples use:
  \<^item> \<open>refParseIP\<close> accepts the dotted-decimal IPv4 literals (four decimal fields up to
    255, no leading zero) and nothing else, so no IPv6 literal; an address is the list
    of its four fields, and \<open>refIPString\<close> prints them;
  \<^item> \<open>refToASCII\<close> returns a name of ASCII bytes without an \<open>xn--\<close> label unchanged and
    converts the one internationalized name of the examples, \<open>bucher.de\<close> written with
    u-umlaut (the UTF-8 bytes C3 BC), to \<open>xn--bcher-kva.de\<close>, which it returns
    unchanged, all as \<open>idna.ToASCII\<close> does; it reports every other name as an error;
  \<^item> on strings with a byte outside ASCII, \<open>ToLowerUnicode\<close> and \<open>EqualFoldUnicode\<close> of
    the instance lower-case and compare the ASCII letters only;
  \<^item> \<open>refURLParseHost\<close> follows \<open>url.Parse\<close> through the control bytes, the fragment,
    the scheme, the query, the authority with its user information, the optional port,
    the bytes allowed in a host and the percent escapes of path and fragment; a percent
    sign inside the host is reported as an error.
  No theorem about all libraries depends on it.
\<close>

definition isDigit :: "char \<Rightarrow> bool" where
  "isDigit c = (48 \<le> (of_char c :: nat) \<and> (of_char c :: nat) \<le> 57)"

definition isLetter :: "char \<Rightarrow> bool" where
  "isLetter c = (let n = (of_char c :: nat) in (65 \<le> n \<and> n \<le> 90) \<or> (97 \<le> n \<and> n \<le> 122))"

definition decOctet :: "string \<Rightarrow> nat option" where
  "decOctet s =
     (if s = [] \<or> length s > 3 \<or> \<not> list_all isDigit s \<or> (length s > 1 \<and> hd s = CHR ''0'')
      then None
      else (let n = foldl (\<lambda>a c. 10 * a + (of_char c - 48)) 0 s
            in if n > 255 then None else Some n))"

definition refParseIP :: "string \<Rightarrow> IP option" where
  "refParseIP s =
     (let parts = map decOctet (Split s CHR ''.'') in
      if length parts = 4 \<and> list_all (\<lambda>x. x \<noteq> None) parts then Some (map the parts)
      else None)"

definition showOctet :: "nat \<Rightarrow> string" where
  "showOctet n =
     (let d = (\<lambda>k. char_of (48 + k mod 10)) in
      if n < 10 then [d n]
      else if n < 100 then [d (n div 10), d n]
      else [d (n div 100), d (n div 10), d n])"

definition refIPString :: "IP \<Rightarrow> string" where
  "refIPString ip = Join (map showOctet ip) ''.''"

definition refToASCII :: "string \<Rightarrow> string option" where
  "refToASCII s =
     (if s = ''b'' @ [CHR 0xC3, CHR 0xBC] @ ''cher.de'' then Some ''xn--bcher-kva.de''
      else if s = ''xn--bcher-kva.de'' then Some s
      else if isASCII s \<and> \<not> list_ex (\<lambda>l. HasPrefix l ''xn--'') (Split s CHR ''.'')
      then Some s else None)"

definition getScheme :: "string \<Rightarrow> (string \<times> string) option" where
  "getScheme rawURL =
     (let ok = (\<lambda>c. isLetter c \<or> isDigit c \<or> c \<in> set ''+-.'');
          pre = takeWhile ok rawURL
      in case dropWhile ok rawURL of
           [] \<Rightarrow> Some ([], rawURL)
         | c # cs \<Rightarrow>
             if c \<noteq> CHR '':'' then Some ([], rawURL)
             else if pre = [] then None
             else if \<not> isLetter (hd pre) then Some ([], rawURL)
             else Some (pre, cs))"

definition validOptionalPort :: "string \<Rightarrow> bool" where
  "validOptionalPort p =
     (case p of [] \<Rightarrow> True | c # cs \<Rightarrow> c = CHR '':'' \<and> list_all isDigit cs)"

definition hostByteOK :: "char \<Rightarrow> bool" where
  "hostByteOK c =
     ((of_char c :: nat) \<ge> 128 \<or> isLetter c \<or> isDigit c
      \<or> c \<in> set ''-_.~!$&()*+,;=:[]<>'' \<or> c = CHR 0x27 \<or> c = CHR 0x22)"

definition validEscapes :: "string \<Rightarrow> bool" where
  "validEscapes s =
     (let hex = (\<lambda>c. isDigit c \<or> lowerByte c \<in> set ''abcdef'') in
      list_all (\<lambda>i. s ! i = CHR ''%'' \<longrightarrow>
                       i + 2 < length s \<and> hex (s ! (i + 1)) \<and> hex (s ! (i + 2)))
               [0..<length s])"

definition refParseHost :: "string \<Rightarrow> string option" where
  "refParseHost host =
     (if HasPrefix host ''['' then
        (if LastIndex host '']'' < 0 then None
         else if \<not> validOptionalPort (drop (nat (LastIndex host '']'') + 1) host) then None
         else if list_all hostByteOK host then Some host else None)
      else if LastIndex host '':'' \<noteq> -1
              \<and> \<not> validOptionalPort (drop (nat (LastIndex host '':'')) host) then None
      else if list_all hostByteOK host then Some host else None)"

definition refParseAuthority :: "string \<Rightarrow> string option" where
  "refParseAuthority authority =
     (let i = LastIndex authority ''@'' in
      if i < 0 then refParseHost authority
      else case refParseHost (drop (nat i + 1) authority) of
             None \<Rightarrow> None
           | Some host \<Rightarrow>
               if list_all (\<lambda>c. isLetter c \<or> isDigit c \<or> c \<in> set ''-._:~!$&()*+,;=%@''
                                \<or> c = CHR 0x27) (take (nat i) authority)
                  \<and> validEscapes (take (nat i) authority)
               then Some host else None)"

definition refURLParseHost :: "string \<Rightarrow> string option" where
  "refURLParseHost rawURL =
     (let u = takeWhile (\<lambda>c. c \<noteq> CHR ''#'') rawURL;
          frag = drop (length u + 1) rawURL
      in if list_ex (\<lambda>c. (of_char c :: nat) < 32 \<or> (of_char c :: nat) = 127) u then None
         else case getScheme u of
           None \<Rightarrow> None
         | Some (scheme, rest0) \<Rightarrow>
             (let rest = takeWhile (\<lambda>c. c \<noteq> CHR ''?'') rest0 in
              if \<not> HasPrefix rest ''/'' then
                (if scheme \<noteq> [] then (if validEscapes frag then Some [] else None)
                 else if Contains (takeWhile (\<lambda>c. c \<noteq> CHR ''/'') rest) '':'' then None
                 else if validEscapes rest \<and> validEscapes frag then Some [] else None)
              else if HasPrefix rest ''//'' \<and> (scheme \<noteq> [] \<or> \<not> HasPrefix rest ''///'') then
                (case refParseAuthority (takeWhile (\<lambda>c. c \<noteq> CHR ''/'') (drop 2 rest)) of
                   None \<Rightarrow> None
                 | Some host \<Rightarrow>
                     if validEscapes (dropWhile (\<lambda>c. c \<noteq> CHR ''/'') (drop 2 rest))
                        \<and> validEscapes frag
                     then Some host else None)
              else if validEscapes rest \<and> validEscapes frag then Some [] else None))"

definition reflib :: lib where
  "reflib = \<lparr>ParseIP = refParseIP, IPString = refIPString, ToASCII = refToASCII,
             URLParseHost = refURLParseHost, ToLowerUnicode = map lowerByte,
             EqualFoldUnicode = (\<lambda>s t. map lowerByte s = map lowerByte t)\<rparr>"

section \<open>The matcher\<close>

lemma matchIP_single:
  "matchIP L ip host p scope \<longleftrightarrow> (\<exists>e\<in>set scope. matchIP L ip host p [e])"
  by (induction scope) (auto split: option.splits)

lemma matchName_single:
  "matchName L host p scope \<longleftrightarrow> (\<exists>e\<in>set scope. matchName L host p [e])"
  by (induction scope) (auto split: scopeKind.splits)

lemma matchHost_single:
  "matchHost L host p scope \<longleftrightarrow> (\<exists>e\<in>set scope. matchHost L host p [e])"
proof (cases "host = []")
  case True
  then show ?thesis by (simp add: matchHost_def)
next
  case False
  show ?thesis
  proof (cases "ParseIP L host")
    case None
    with False show ?thesis
      using matchName_single [of L host p scope] by (simp add: matchHost_def)
  next
    case (Some ip)
    with False show ?thesis
      using matchIP_single [of L ip host p scope] by (simp add: matchHost_def)
  qed
qed

lemma matchHost_Cons:
  "matchHost L host p (e # scope) \<longleftrightarrow> matchHost L host p [e] \<or> matchHost L host p scope"
  using matchHost_single [of L host p "e # scope"] matchHost_single [of L host p scope]
  by auto

lemma matchHost_port_mismatch:
  assumes "port e \<noteq> []" and "port e \<noteq> p"
  shows "\<not> matchHost L host p [e]"
  using assms
  by (auto simp: matchHost_def portAccepts_def split: option.splits scopeKind.splits)

lemma matchIP_iff:
  "matchIP L ip host p scope \<longleftrightarrow>
     (\<exists>e\<in>set scope. kind e = scopeExact
        \<and> (ParseIP L (base e) = Some ip \<or> EqualFold L (base e) host)
        \<and> (port e = [] \<or> port e = p))"
  by (induction scope) (auto simp: portAccepts_def split: option.splits)

text \<open>
  Claim C2. Whatever the libraries do, for every host, port and scope: the verdict of
  \<open>matchHost\<close> on a scope is the disjunction of its verdicts on the entries taken one by
  one; an entry with a port constraint accepts only the candidate port equal to it, so
  no candidate without a port; an entry whose port constraint differs from the candidate's
  port does not end the search, the verdict is that of the rest of the scope. With
  \<open>example.com:80\<close> and \<open>example.com\<close> in scope, \<open>example.com\<close> without a port matches;
  with \<open>domain.com:80\<close> alone, \<open>domain.com\<close> matches on port 80, not on port 8080 and
  not without a port.
\<close>

theorem matchHost_port_existential:
  "(matchHost L host p scope \<longleftrightarrow> (\<exists>e\<in>set scope. matchHost L host p [e]))
   \<and> (port e \<noteq> [] \<and> matchHost L host p [e] \<longrightarrow> p = port e)
   \<and> (port e \<noteq> [] \<longrightarrow> \<not> matchHost L host [] [e])
   \<and> (port e \<noteq> [] \<and> port e \<noteq> p \<longrightarrow>
        matchHost L host p (e # scope) = matchHost L host p scope)
   \<and> matchHost L ''example.com'' []
        [\<lparr>raw = ''example.com:80'', kind = scopeExact, base = ''example.com'', port = ''80'',
          patternLabels = []\<rparr>,
         \<lparr>raw = ''example.com'', kind = scopeExact, base = ''example.com'', port = [],
          patternLabels = []\<rparr>]
   \<and> matchHost L ''domain.com'' ''80''
        [\<lparr>raw = ''domain.com:80'', kind = scopeExact, base = ''domain.com'', port = ''80'',
          patternLabels = []\<rparr>]
   \<and> \<not> matchHost L ''domain.com'' ''8080''
        [\<lparr>raw = ''domain.com:80'', kind = scopeExact, base = ''domain.com'', port = ''80'',
          patternLabels = []\<rparr>]
   \<and> \<not> matchHost L ''domain.com'' []
        [\<lparr>raw = ''domain.com:80'', kind = scopeExact, base = ''domain.com'', port = ''80'',
          patternLabels = []\<rparr>]"
proof -
  have single: "matchHost L host p scope \<longleftrightarrow> (\<exists>e\<in>set scope. matchHost L host p [e])"
    by (rule matchHost_single)
  have exact: "port e \<noteq> [] \<and> matchHost L host p [e] \<longrightarrow> p = port e"
    using matchHost_port_mismatch [of e p L host] by blast
  have noport: "port e \<noteq> [] \<longrightarrow> \<not> matchHost L host [] [e]"
    using matchHost_port_mismatch [of e "[]" L host] by blast
  have goes_on: "port e \<noteq> [] \<and> port e \<noteq> p \<longrightarrow>
      matchHost L host p (e # scope) = matchHost L host p scope"
    using matchHost_port_mismatch [of e p L host] matchHost_Cons [of L host p e scope]
    by blast
  have eq1: "equalHost L ''example.com'' ''example.com'' \<and> EqualFold L ''example.com'' ''example.com''"
  proof -
    have t: "TrimSuffix ''example.com'' ''.'' = ''example.com''" by code_simp
    have i: "isASCII ''example.com''" by code_simp
    show ?thesis by (simp add: equalHost_def EqualFold_def t i)
  qed
  have eq2: "equalHost L ''domain.com'' ''domain.com'' \<and> EqualFold L ''domain.com'' ''domain.com''"
  proof -
    have t: "TrimSuffix ''domain.com'' ''.'' = ''domain.com''" by code_simp
    have i: "isASCII ''domain.com''" by code_simp
    show ?thesis by (simp add: equalHost_def EqualFold_def t i)
  qed
  have ex1: "matchHost L ''example.com'' []
        [\<lparr>raw = ''example.com:80'', kind = scopeExact, base = ''example.com'', port = ''80'',
          patternLabels = []\<rparr>,
         \<lparr>raw = ''example.com'', kind = scopeExact, base = ''example.com'', port = [],
          patternLabels = []\<rparr>]"
    using eq1 by (simp add: matchHost_def portAccepts_def split: option.splits)
  have ex2: "matchHost L ''domain.com'' ''80''
        [\<lparr>raw = ''domain.com:80'', kind = scopeExact, base = ''domain.com'', port = ''80'',
          patternLabels = []\<rparr>]"
    using eq2 by (simp add: matchHost_def portAccepts_def split: option.splits)
  have ex3: "\<not> matchHost L ''domain.com'' ''8080''
        [\<lparr>raw = ''domain.com:80'', kind = scopeExact, base = ''domain.com'', port = ''80'',
          patternLabels = []\<rparr>]"
    by (rule matchHost_port_mismatch) simp_all
  have ex4: "\<not> matchHost L ''domain.com'' []
        [\<lparr>raw = ''domain.com:80'', kind = scopeExact, base = ''domain.com'', port = ''80'',
          patternLabels = []\<rparr>]"
    by (rule matchHost_port_mismatch) simp_all
  from single exact noport goes_on ex1 ex2 ex3 ex4 show ?thesis by blast
qed

text \<open>
  The same on the scope lines \<open>example.com:80\<close> and \<open>example.com\<close> as \<open>parseScopeLine\<close>
  reads them, for the candidate \<open>example.com\<close> on port 8080: the first entry alone
  rejects it, the search goes on and the second entry accepts it.
\<close>

theorem matchHost_port_existential_witness:
  "port (parseScopeLine reflib ''example.com:80'') \<noteq> []
   \<and> port (parseScopeLine reflib ''example.com:80'') \<noteq> ''8080''
   \<and> \<not> matchHost reflib ''example.com'' ''8080'' [parseScopeLine reflib ''example.com:80'']
   \<and> matchHost reflib ''example.com'' ''8080'' [parseScopeLine reflib ''example.com'']
   \<and> matchHost reflib ''example.com'' ''8080''
        [parseScopeLine reflib ''example.com:80'', parseScopeLine reflib ''example.com'']"
proof -
  have a: "port (parseScopeLine reflib ''example.com:80'') \<noteq> []"
    by code_simp
  have b: "port (parseScopeLine reflib ''example.com:80'') \<noteq> ''8080''"
    by code_simp
  have c: "matchHost reflib ''example.com'' ''8080'' [parseScopeLine reflib ''example.com'']"
    by code_simp
  note T = matchHost_port_existential [of reflib "''example.com''" "''8080''"
      "[parseScopeLine reflib ''example.com'']" "parseScopeLine reflib ''example.com:80''"]
  from T a b have d: "\<not> matchHost reflib ''example.com'' ''8080''
      [parseScopeLine reflib ''example.com:80'']"
    by metis
  from T a b c have e: "matchHost reflib ''example.com'' ''8080''
      [parseScopeLine reflib ''example.com:80'', parseScopeLine reflib ''example.com'']"
    by metis
  from a b c d e show ?thesis by simp
qed

text \<open>
  Claim C5. For every host that \<open>net.ParseIP\<close> accepts, \<open>matchHost\<close> answers true exactly
  when the scope holds an Exact entry whose base parses to the same address or equals
  the host up to case, and whose port constraint is empty or equal to the candidate's
  port; an entry of another kind never accepts such a host.
\<close>

theorem matchHost_ip_literal:
  assumes "host \<noteq> []" and "ParseIP L host = Some ip"
  shows "(matchHost L host p scope \<longleftrightarrow>
            (\<exists>e\<in>set scope. kind e = scopeExact
               \<and> (ParseIP L (base e) = Some ip \<or> EqualFold L (base e) host)
               \<and> (port e = [] \<or> port e = p)))
         \<and> (kind e \<noteq> scopeExact \<longrightarrow> \<not> matchHost L host p [e])"
  using assms matchIP_iff [of L ip host p scope] matchIP_iff [of L ip host p "[e]"]
  by (simp add: matchHost_def)

theorem matchHost_ip_literal_witness:
  "''10.0.0.1'' \<noteq> [] \<and> ParseIP reflib ''10.0.0.1'' = Some [10, 0, 0, 1]
   \<and> kind (parseScopeLine reflib ''*.0.0.1'') \<noteq> scopeExact
   \<and> \<not> matchHost reflib ''10.0.0.1'' ''443'' [parseScopeLine reflib ''*.0.0.1'']
   \<and> matchHost reflib ''10.0.0.1'' ''443''
        [parseScopeLine reflib ''*.0.0.1'', parseScopeLine reflib ''10.0.0.1:443'']"
proof -
  have a: "ParseIP reflib ''10.0.0.1'' = Some [10, 0, 0, 1]"
    by code_simp
  have b: "kind (parseScopeLine reflib ''*.0.0.1'') \<noteq> scopeExact"
    by code_simp
  have c: "matchHost reflib ''10.0.0.1'' ''443''
        [parseScopeLine reflib ''*.0.0.1'', parseScopeLine reflib ''10.0.0.1:443'']"
    by code_simp
  have d: "''10.0.0.1'' \<noteq> []"
    by simp
  note T = matchHost_ip_literal [OF d a, of "''443''" "[]" "parseScopeLine reflib ''*.0.0.1''"]
  from T b have e: "\<not> matchHost reflib ''10.0.0.1'' ''443'' [parseScopeLine reflib ''*.0.0.1'']"
    by metis
  from a b c d e show ?thesis by simp
qed

section \<open>Wildcard entries\<close>

lemma ToLower_ascii: "isASCII s \<Longrightarrow> ToLower L s = map lowerByte s"
  by (simp add: ToLower_def)

lemma EqualFold_ascii:
  "isASCII s \<Longrightarrow> isASCII t \<Longrightarrow> EqualFold L s t \<longleftrightarrow> map lowerByte s = map lowerByte t"
  by (simp add: EqualFold_def)

lemma ascii_lower_fixed:
  assumes "isASCII x" and "TrimSpace x = x" and "map lowerByte x = x"
  shows "ToLower L (TrimSpace x) = x \<and> EqualFold L x x"
  using assms by (simp add: ToLower_ascii EqualFold_ascii)

lemma matchLabels_iff:
  "length hl = length pattern \<Longrightarrow>
   matchLabels L hl pattern \<longleftrightarrow>
     (\<forall>i<length pattern.
        if ToLower L (TrimSpace (pattern ! i)) = ''*'' then hl ! i \<noteq> []
        else EqualFold L (hl ! i) (ToLower L (TrimSpace (pattern ! i))))"
proof (induction pattern arbitrary: hl)
  case Nil
  then show ?case by simp
next
  case (Cons pat pattern)
  then obtain h hs where hl: "hl = h # hs" and len: "length hs = length pattern"
    by (cases hl) auto
  have step: "matchLabels L hl (pat # pattern) \<longleftrightarrow>
      (if ToLower L (TrimSpace pat) = ''*'' then h \<noteq> []
       else EqualFold L h (ToLower L (TrimSpace pat)))
      \<and> matchLabels L hs pattern"
    by (auto simp: hl Let_def)
  have rest: "matchLabels L hs pattern \<longleftrightarrow>
      (\<forall>i<length pattern.
         if ToLower L (TrimSpace (pattern ! i)) = ''*'' then hs ! i \<noteq> []
         else EqualFold L (hs ! i) (ToLower L (TrimSpace (pattern ! i))))"
    by (rule Cons.IH [OF len])
  have shift: "(\<forall>i<length (pat # pattern).
         if ToLower L (TrimSpace ((pat # pattern) ! i)) = ''*'' then hl ! i \<noteq> []
         else EqualFold L (hl ! i) (ToLower L (TrimSpace ((pat # pattern) ! i)))) \<longleftrightarrow>
      (if ToLower L (TrimSpace pat) = ''*'' then h \<noteq> []
       else EqualFold L h (ToLower L (TrimSpace pat)))
      \<and> (\<forall>i<length pattern.
         if ToLower L (TrimSpace (pattern ! i)) = ''*'' then hs ! i \<noteq> []
         else EqualFold L (hs ! i) (ToLower L (TrimSpace (pattern ! i))))"
    by (simp add: hl All_less_Suc2)
  from step rest shift show ?case by blast
qed

text \<open>
  Claim C3, as the code has it. \<open>matchPatternWildcard\<close> trims the white space around
  each pattern label before it compares: the pattern \<open>["a ", "*"]\<close>, which
  \<open>parseScopeLine\<close> produces for the scope line \<open>a :80.*\<close>, matches the host \<open>a.b\<close>,
  although the label \<open>"a "\<close> and the host label \<open>"a"\<close> are not equal up to case.
\<close>

theorem matchPatternWildcard_counterexample:
  "patternLabels (parseScopeLine reflib ''a :80.*'') = [''a '', ''*'']
   \<and> kind (parseScopeLine reflib ''a :80.*'') = scopePatternWildcard
   \<and> matchPatternWildcard reflib ''a.b'' [''a '', ''*'']
   \<and> Split (TrimSuffix ''a.b'' ''.'') CHR ''.'' = [''a'', ''b'']
   \<and> \<not> EqualFold reflib ''a'' ''a ''
   \<and> processLines reflib [''a.b:80''] [parseScopeLine reflib ''a :80.*''] False = [''a.b:80'']"
  by code_simp

text \<open>
  Claim C3, amended. Whatever the libraries do, for every host and every list of
  pattern labels: after one trailing dot is stripped from the host and the host is
  split on \<open>.\<close>, \<open>matchPatternWildcard\<close> answers true exactly when the host has as many
  labels as the pattern and, at each position, the pattern label trimmed of surrounding
  white space and lower-cased either is \<open>*\<close>, and then the host label is not empty, or
  is equal to the host label under \<open>strings.EqualFold\<close>. So \<open>staging.*.domain.com\<close>
  matches \<open>staging.eu.domain.com\<close> and not \<open>staging.domain.com\<close>.
\<close>

theorem matchPatternWildcard_iff:
  "(matchPatternWildcard L host pattern \<longleftrightarrow>
      length (Split (TrimSuffix host ''.'') CHR ''.'') = length pattern
      \<and> (\<forall>i<length pattern.
            if ToLower L (TrimSpace (pattern ! i)) = ''*''
            then Split (TrimSuffix host ''.'') CHR ''.'' ! i \<noteq> []
            else EqualFold L (Split (TrimSuffix host ''.'') CHR ''.'' ! i)
                   (ToLower L (TrimSpace (pattern ! i)))))
   \<and> matchPatternWildcard L ''staging.eu.domain.com'' [''staging'', ''*'', ''domain'', ''com'']
   \<and> \<not> matchPatternWildcard L ''staging.domain.com'' [''staging'', ''*'', ''domain'', ''com'']"
proof -
  have gen: "matchPatternWildcard L host pattern \<longleftrightarrow>
      length (Split (TrimSuffix host ''.'') CHR ''.'') = length pattern
      \<and> (\<forall>i<length pattern.
            if ToLower L (TrimSpace (pattern ! i)) = ''*''
            then Split (TrimSuffix host ''.'') CHR ''.'' ! i \<noteq> []
            else EqualFold L (Split (TrimSuffix host ''.'') CHR ''.'' ! i)
                   (ToLower L (TrimSpace (pattern ! i))))"
  proof (cases "length (Split (TrimSuffix host ''.'') CHR ''.'') = length pattern")
    case True
    then show ?thesis
      using matchLabels_iff [OF True] by (simp add: matchPatternWildcard_def Let_def)
  next
    case False
    then show ?thesis by (simp add: matchPatternWildcard_def Let_def)
  qed
  have s1: "Split (TrimSuffix ''staging.eu.domain.com'' ''.'') CHR ''.''
      = [''staging'', ''eu'', ''domain'', ''com'']"
    by code_simp
  have l1: "ToLower L (TrimSpace ''staging'') = ''staging'' \<and> EqualFold L ''staging'' ''staging''"
    by (rule ascii_lower_fixed) code_simp+
  have l2: "ToLower L (TrimSpace ''*'') = ''*'' \<and> EqualFold L ''*'' ''*''"
    by (rule ascii_lower_fixed) code_simp+
  have l3: "ToLower L (TrimSpace ''domain'') = ''domain'' \<and> EqualFold L ''domain'' ''domain''"
    by (rule ascii_lower_fixed) code_simp+
  have l4: "ToLower L (TrimSpace ''com'') = ''com'' \<and> EqualFold L ''com'' ''com''"
    by (rule ascii_lower_fixed) code_simp+
  have e1: "matchPatternWildcard L ''staging.eu.domain.com'' [''staging'', ''*'', ''domain'', ''com'']"
    by (simp add: matchPatternWildcard_def s1 l1 l2 l3 l4)
  have s2: "Split (TrimSuffix ''staging.domain.com'' ''.'') CHR ''.''
      = [''staging'', ''domain'', ''com'']"
    by code_simp
  have e2: "\<not> matchPatternWildcard L ''staging.domain.com'' [''staging'', ''*'', ''domain'', ''com'']"
    by (simp add: matchPatternWildcard_def s2)
  from gen e1 e2 show ?thesis by blast
qed

text \<open>
  The characterization at the host \<open>Staging.EU.domain.com.\<close> and the pattern that
  \<open>parseScopeLine\<close> reads from \<open>staging.*.domain.com\<close>: the label counts agree, position
  1 is the wildcard and meets the non-empty host label \<open>EU\<close>.
\<close>

theorem matchPatternWildcard_iff_witness:
  "(1 :: nat) < length (patternLabels (parseScopeLine reflib ''staging.*.domain.com''))
   \<and> ToLower reflib (TrimSpace (patternLabels (parseScopeLine reflib ''staging.*.domain.com'') ! 1))
       = ''*''
   \<and> matchPatternWildcard reflib ''Staging.EU.domain.com.''
        (patternLabels (parseScopeLine reflib ''staging.*.domain.com''))
   \<and> length (Split (TrimSuffix ''Staging.EU.domain.com.'' ''.'') CHR ''.'')
        = length (patternLabels (parseScopeLine reflib ''staging.*.domain.com''))
   \<and> Split (TrimSuffix ''Staging.EU.domain.com.'' ''.'') CHR ''.'' ! 1 \<noteq> []"
proof -
  have a: "(1 :: nat) < length (patternLabels (parseScopeLine reflib ''staging.*.domain.com''))"
    by code_simp
  have b: "ToLower reflib (TrimSpace (patternLabels (parseScopeLine reflib ''staging.*.domain.com'') ! 1))
       = ''*''"
    by code_simp
  have c: "matchPatternWildcard reflib ''Staging.EU.domain.com.''
        (patternLabels (parseScopeLine reflib ''staging.*.domain.com''))"
    by code_simp
  note T = matchPatternWildcard_iff [of reflib "''Staging.EU.domain.com.''"
      "patternLabels (parseScopeLine reflib ''staging.*.domain.com'')"]
  from T c have d: "length (Split (TrimSuffix ''Staging.EU.domain.com.'' ''.'') CHR ''.'')
        = length (patternLabels (parseScopeLine reflib ''staging.*.domain.com''))"
    by (rule conjunct1 [OF iffD1 [OF conjunct1]])
  from T c have "\<forall>i<length (patternLabels (parseScopeLine reflib ''staging.*.domain.com'')).
      if ToLower reflib (TrimSpace (patternLabels (parseScopeLine reflib ''staging.*.domain.com'') ! i))
         = ''*''
      then Split (TrimSuffix ''Staging.EU.domain.com.'' ''.'') CHR ''.'' ! i \<noteq> []
      else EqualFold reflib (Split (TrimSuffix ''Staging.EU.domain.com.'' ''.'') CHR ''.'' ! i)
             (ToLower reflib
               (TrimSpace (patternLabels (parseScopeLine reflib ''staging.*.domain.com'') ! i)))"
    by (rule conjunct2 [OF iffD1 [OF conjunct1]])
  then have "(1 :: nat) < length (patternLabels (parseScopeLine reflib ''staging.*.domain.com'')) \<longrightarrow>
      (if ToLower reflib (TrimSpace (patternLabels (parseScopeLine reflib ''staging.*.domain.com'') ! 1))
          = ''*''
       then Split (TrimSuffix ''Staging.EU.domain.com.'' ''.'') CHR ''.'' ! 1 \<noteq> []
       else EqualFold reflib (Split (TrimSuffix ''Staging.EU.domain.com.'' ''.'') CHR ''.'' ! 1)
             (ToLower reflib
               (TrimSpace (patternLabels (parseScopeLine reflib ''staging.*.domain.com'') ! 1))))"
    by (rule spec)
  with a have "if ToLower reflib (TrimSpace (patternLabels (parseScopeLine reflib ''staging.*.domain.com'') ! 1))
         = ''*''
      then Split (TrimSuffix ''Staging.EU.domain.com.'' ''.'') CHR ''.'' ! 1 \<noteq> []
      else EqualFold reflib (Split (TrimSuffix ''Staging.EU.domain.com.'' ''.'') CHR ''.'' ! 1)
             (ToLower reflib
               (TrimSpace (patternLabels (parseScopeLine reflib ''staging.*.domain.com'') ! 1)))"
    by (rule rev_mp)
  with b have e: "Split (TrimSuffix ''Staging.EU.domain.com.'' ''.'') CHR ''.'' ! 1 \<noteq> []"
    by simp
  from a b c d e show ?thesis by simp
qed

text \<open>
  Claim C4, as the code has it. \<open>matchLeadingWildcard\<close> compares host and base through
  \<open>equalHost\<close>, which strips one trailing dot from each side and ignores case. The input
  line \<open>test.com..\<close> is normalized to the host \<open>test.com.\<close>; it matches the entry of
  \<open>*.test.com\<close>, whose base is \<open>test.com\<close>, although it neither equals the base nor ends
  with \<open>.test.com\<close>.
\<close>

theorem matchLeadingWildcard_counterexample:
  "matchLeadingWildcard reflib ''test.com.'' ''test.com''
   \<and> ''test.com.'' \<noteq> ''test.com''
   \<and> \<not> HasSuffix ''test.com.'' (''.'' @ ''test.com'')
   \<and> normalizeHost reflib ''test.com..'' = (''test.com.'', None)
   \<and> base (parseScopeLine reflib ''*.test.com'') = ''test.com''
   \<and> processLines reflib [''test.com..''] [parseScopeLine reflib ''*.test.com''] False
        = [''test.com..'']"
  by code_simp

text \<open>
  Claim C4, amended. Whatever the libraries do, for every host and every base \<open>b\<close>:
  \<open>matchLeadingWildcard\<close> answers true exactly when the host equals \<open>b\<close> under
  \<open>strings.EqualFold\<close> once one trailing dot is stripped from each, or the host ends with
  the string \<open>"." + b\<close>. When host and base are ASCII strings in lower case without a
  trailing dot, that is: the host equals \<open>b\<close> or ends with \<open>"." + b\<close>. So \<open>test.com\<close>,
  \<open>api.test.com\<close> and \<open>deep.nested.sub.test.com\<close> match \<open>*.test.com\<close>, and \<open>nottest.com\<close>
  does not.
\<close>

theorem matchLeadingWildcard_iff:
  "(matchLeadingWildcard L host b \<longleftrightarrow>
      EqualFold L (TrimSuffix host ''.'') (TrimSuffix b ''.'') \<or> HasSuffix host (''.'' @ b))
   \<and> (isASCII host \<and> isASCII b \<and> ToLower L host = host \<and> ToLower L b = b
        \<and> \<not> HasSuffix host ''.'' \<and> \<not> HasSuffix b ''.'' \<longrightarrow>
        (matchLeadingWildcard L host b \<longleftrightarrow> host = b \<or> HasSuffix host (''.'' @ b)))
   \<and> matchLeadingWildcard L ''test.com'' ''test.com''
   \<and> matchLeadingWildcard L ''api.test.com'' ''test.com''
   \<and> matchLeadingWildcard L ''deep.nested.sub.test.com'' ''test.com''
   \<and> \<not> matchLeadingWildcard L ''nottest.com'' ''test.com''"
proof -
  have gen: "matchLeadingWildcard L host b \<longleftrightarrow>
      EqualFold L (TrimSuffix host ''.'') (TrimSuffix b ''.'') \<or> HasSuffix host (''.'' @ b)"
    by (simp add: matchLeadingWildcard_def equalHost_def)
  have norm: "isASCII host \<and> isASCII b \<and> ToLower L host = host \<and> ToLower L b = b
        \<and> \<not> HasSuffix host ''.'' \<and> \<not> HasSuffix b ''.'' \<longrightarrow>
        (matchLeadingWildcard L host b \<longleftrightarrow> host = b \<or> HasSuffix host (''.'' @ b))"
  proof
    assume h: "isASCII host \<and> isASCII b \<and> ToLower L host = host \<and> ToLower L b = b
        \<and> \<not> HasSuffix host ''.'' \<and> \<not> HasSuffix b ''.''"
    then have lh: "map lowerByte host = host" and lb: "map lowerByte b = b"
      using ToLower_ascii [of host L] ToLower_ascii [of b L] by simp_all
    from h have "EqualFold L host b \<longleftrightarrow> host = b"
      by (simp add: EqualFold_ascii lh lb)
    with h show "matchLeadingWildcard L host b \<longleftrightarrow> host = b \<or> HasSuffix host (''.'' @ b)"
      by (simp add: matchLeadingWildcard_def equalHost_def TrimSuffix_def)
  qed
  have t: "TrimSuffix ''test.com'' ''.'' = ''test.com''" by code_simp
  have i: "isASCII ''test.com''" by code_simp
  have e1: "matchLeadingWildcard L ''test.com'' ''test.com''"
    by (simp add: matchLeadingWildcard_def equalHost_def t EqualFold_ascii [OF i i])
  have s2: "HasSuffix ''api.test.com'' (''.'' @ ''test.com'')" by code_simp
  have e2: "matchLeadingWildcard L ''api.test.com'' ''test.com''"
    using s2 by (simp add: matchLeadingWildcard_def)
  have s3: "HasSuffix ''deep.nested.sub.test.com'' (''.'' @ ''test.com'')" by code_simp
  have e3: "matchLeadingWildcard L ''deep.nested.sub.test.com'' ''test.com''"
    using s3 by (simp add: matchLeadingWildcard_def)
  have t4: "TrimSuffix ''nottest.com'' ''.'' = ''nottest.com''" by code_simp
  have i4: "isASCII ''nottest.com''" by code_simp
  have n4: "map lowerByte ''nottest.com'' \<noteq> map lowerByte ''test.com''" by code_simp
  have s4: "\<not> HasSuffix ''nottest.com'' (''.'' @ ''test.com'')" by code_simp
  have e4: "\<not> matchLeadingWildcard L ''nottest.com'' ''test.com''"
    using s4 n4 by (simp add: matchLeadingWildcard_def equalHost_def t t4 EqualFold_ascii [OF i4 i])
  from gen norm e1 e2 e3 e4 show ?thesis by blast
qed

text \<open>
  The lower-case case at the host \<open>sub.test.com\<close> and the base that \<open>parseScopeLine\<close>
  reads from \<open>*.Test.COM\<close>.
\<close>

theorem matchLeadingWildcard_iff_witness:
  "isASCII ''sub.test.com''
   \<and> isASCII (base (parseScopeLine reflib ''*.Test.COM''))
   \<and> ToLower reflib ''sub.test.com'' = ''sub.test.com''
   \<and> ToLower reflib (base (parseScopeLine reflib ''*.Test.COM''))
       = base (parseScopeLine reflib ''*.Test.COM'')
   \<and> \<not> HasSuffix ''sub.test.com'' ''.''
   \<and> \<not> HasSuffix (base (parseScopeLine reflib ''*.Test.COM'')) ''.''
   \<and> HasSuffix ''sub.test.com'' (''.'' @ base (parseScopeLine reflib ''*.Test.COM''))
   \<and> matchLeadingWildcard reflib ''sub.test.com'' (base (parseScopeLine reflib ''*.Test.COM''))"
proof -
  have a: "ToLower reflib ''sub.test.com'' = ''sub.test.com''"
    by code_simp
  have b: "ToLower reflib (base (parseScopeLine reflib ''*.Test.COM''))
      = base (parseScopeLine reflib ''*.Test.COM'')"
    by code_simp
  have c: "\<not> HasSuffix ''sub.test.com'' ''.''"
    by code_simp
  have d: "\<not> HasSuffix (base (parseScopeLine reflib ''*.Test.COM'')) ''.''"
    by code_simp
  have e: "HasSuffix ''sub.test.com'' (''.'' @ base (parseScopeLine reflib ''*.Test.COM''))"
    by code_simp
  have g: "isASCII ''sub.test.com''"
    by code_simp
  have h: "isASCII (base (parseScopeLine reflib ''*.Test.COM''))"
    by code_simp
  note T = matchLeadingWildcard_iff [of reflib "''sub.test.com''"
      "base (parseScopeLine reflib ''*.Test.COM'')"]
  from T a b c d e g h
  have f: "matchLeadingWildcard reflib ''sub.test.com'' (base (parseScopeLine reflib ''*.Test.COM''))"
    by blast
  from a b c d e f g h show ?thesis by simp
qed


section \<open>The entries that parsing produces\<close>

text \<open>
  Claim C9. Whatever the libraries do, the entry \<open>parseScopeLine\<close> returns for a line has
  a non-empty base only when its kind is Exact or LeadingWildcard, and then no pattern
  labels; it has pattern labels only when its kind is PatternWildcard, and then an empty
  base.
\<close>

theorem parseScopeLine_kind_payload:
  "(base (parseScopeLine L line) \<noteq> [] \<longrightarrow>
      kind (parseScopeLine L line) = scopeExact
      \<or> kind (parseScopeLine L line) = scopeLeadingWildcard)
   \<and> (kind (parseScopeLine L line) = scopeExact
        \<or> kind (parseScopeLine L line) = scopeLeadingWildcard \<longrightarrow>
        patternLabels (parseScopeLine L line) = [])
   \<and> (patternLabels (parseScopeLine L line) \<noteq> [] \<longrightarrow>
        kind (parseScopeLine L line) = scopePatternWildcard)
   \<and> (kind (parseScopeLine L line) = scopePatternWildcard \<longrightarrow>
        base (parseScopeLine L line) = [])"
  by (simp add: parseScopeLine_def Let_def split: prod.splits option.splits)

theorem parseScopeLine_kind_payload_witness:
  "base (parseScopeLine reflib ''*.Test.com:8443'') \<noteq> []
   \<and> kind (parseScopeLine reflib ''*.Test.com:8443'') = scopeLeadingWildcard
   \<and> patternLabels (parseScopeLine reflib ''*.Test.com:8443'') = []
   \<and> patternLabels (parseScopeLine reflib ''a.*.b.com:8080'') \<noteq> []
   \<and> kind (parseScopeLine reflib ''a.*.b.com:8080'') = scopePatternWildcard
   \<and> base (parseScopeLine reflib ''a.*.b.com:8080'') = []"
proof -
  have a: "base (parseScopeLine reflib ''*.Test.com:8443'') \<noteq> []"
    by code_simp
  have b: "kind (parseScopeLine reflib ''*.Test.com:8443'') = scopeLeadingWildcard"
    by code_simp
  have c: "patternLabels (parseScopeLine reflib ''a.*.b.com:8080'') \<noteq> []"
    by code_simp
  from b parseScopeLine_kind_payload [of reflib "''*.Test.com:8443''"]
  have d: "patternLabels (parseScopeLine reflib ''*.Test.com:8443'') = []"
    by blast
  from c parseScopeLine_kind_payload [of reflib "''a.*.b.com:8080''"]
  have e: "kind (parseScopeLine reflib ''a.*.b.com:8080'') = scopePatternWildcard
      \<and> base (parseScopeLine reflib ''a.*.b.com:8080'') = []"
    by blast
  from a b c d e show ?thesis by simp
qed

section \<open>Facts about the string functions\<close>

lemma Contains_single: "Contains s [c] \<longleftrightarrow> c \<in> set s"
  by (induction s) auto

lemma Contains_Cons_mem: "Contains s (c # t) \<Longrightarrow> c \<in> set s"
  by (induction s) auto

lemma lastIndexFrom_absent: "\<not> Contains s sub \<Longrightarrow> lastIndexFrom n found s sub = found"
  by (induction s arbitrary: n found) auto

lemma lastIndexFrom_present: "Contains s sub \<Longrightarrow> int n \<le> lastIndexFrom n found s sub"
proof (induction s arbitrary: n found)
  case Nil
  then show ?case by simp
next
  case (Cons c cs)
  show ?case
  proof (cases "Contains cs sub")
    case True
    then have "int (Suc n) \<le> lastIndexFrom (Suc n) (if prefix sub (c # cs) then int n else found) cs sub"
      by (rule Cons.IH)
    then show ?thesis by simp
  next
    case False
    with Cons.prems have "prefix sub (c # cs)" by simp
    with False show ?thesis by (simp add: lastIndexFrom_absent)
  qed
qed

lemma LastIndex_absent_iff: "LastIndex s sub = -1 \<longleftrightarrow> \<not> Contains s sub"
  using lastIndexFrom_absent [of s sub 0 "-1"] lastIndexFrom_present [of s sub 0 "-1"]
  by (auto simp: LastIndex_def)

lemma LastIndex_neg_iff: "LastIndex s sub < 0 \<longleftrightarrow> \<not> Contains s sub"
  using lastIndexFrom_absent [of s sub 0 "-1"] lastIndexFrom_present [of s sub 0 "-1"]
  by (auto simp: LastIndex_def)

lemma indexFrom_absent: "\<not> Contains s sub \<Longrightarrow> indexFrom n s sub = -1"
  by (induction s arbitrary: n) auto

lemma indexFrom_first:
  "c \<notin> set t \<Longrightarrow> indexFrom n (t @ c # r) [c] = int (n + length t)"
  by (induction t arbitrary: n) auto

lemma Split_no_sep: "sep \<notin> set s \<Longrightarrow> Split s sep = [s]"
  by (induction s) auto

lemma Split_nonempty: "Split s sep \<noteq> []"
  by (induction s) (auto split: list.splits)

lemma HasSuffix_single_mem: "HasSuffix s [c] \<Longrightarrow> c \<in> set s"
  by (auto simp: HasSuffix_def suffix_def)

lemma dropWhile_none: "\<forall>x\<in>set xs. \<not> P x \<Longrightarrow> dropWhile P xs = xs"
  by (cases xs) auto

lemma TrimSpace_no_space: "\<forall>c\<in>set s. \<not> isSpace c \<Longrightarrow> TrimSpace s = s"
  by (simp add: TrimSpace_def dropWhile_none)

lemma Fields_Nil: "Fields [] = []"
  by (simp add: Fields.simps [of "[]"])

lemma Fields_start:
  "\<not> isSpace c \<Longrightarrow>
   Fields (c # cs) = takeWhile (\<lambda>x. \<not> isSpace x) (c # cs)
                      # Fields (dropWhile (\<lambda>x. \<not> isSpace x) (c # cs))"
  by (subst Fields.simps) simp

lemma Fields_first:
  assumes "Fields t = first # rest"
  shows "first \<noteq> [] \<and> (\<forall>c\<in>set first. \<not> isSpace c)"
proof (cases "dropWhile isSpace t")
  case Nil
  with assms show ?thesis by (simp add: Fields.simps [of t])
next
  case (Cons c cs)
  then have c: "\<not> isSpace c"
    by (metis hd_dropWhile list.distinct(1) list.sel(1))
  from Cons assms have f: "first = takeWhile (\<lambda>x. \<not> isSpace x) (c # cs)"
    by (simp add: Fields.simps [of t])
  with c have "first \<noteq> []" by simp
  moreover from f have "\<forall>x\<in>set first. \<not> isSpace x"
    by (metis set_takeWhileD)
  ultimately show ?thesis by simp
qed

lemma TrimSpace_hd: "TrimSpace s \<noteq> [] \<Longrightarrow> \<not> isSpace (hd (TrimSpace s))"
proof -
  assume a: "TrimSpace s \<noteq> []"
  let ?d = "dropWhile isSpace s"
  have ts: "TrimSpace s = rev (dropWhile isSpace (rev ?d))"
    by (simp add: TrimSpace_def)
  have dne: "?d \<noteq> []"
  proof
    assume e: "?d = []"
    have "TrimSpace s = []" unfolding TrimSpace_def e by simp
    with a show False by simp
  qed
  then have h: "\<not> isSpace (hd ?d)" by (rule hd_dropWhile)
  have "\<exists>zs. ?d = TrimSpace s @ zs"
    unfolding ts
    by (metis append_take_drop_id dropWhile_eq_drop rev_append rev_rev_ident rev_take)
  then obtain zs where "?d = TrimSpace s @ zs" by blast
  with a have "hd ?d = hd (TrimSpace s)" by (metis hd_append2)
  with h show ?thesis by simp
qed

lemma Fields_TrimSpace_nonempty: "TrimSpace s \<noteq> [] \<Longrightarrow> Fields (TrimSpace s) \<noteq> []"
proof -
  assume a: "TrimSpace s \<noteq> []"
  then have "\<not> isSpace (hd (TrimSpace s))" by (rule TrimSpace_hd)
  with a show ?thesis
    by (cases "TrimSpace s") (auto simp: Fields_start)
qed

section \<open>Facts about host extraction\<close>

lemma SplitHostPort_no_colon: "CHR '':'' \<notin> set s \<Longrightarrow> SplitHostPort s = None"
  using LastIndex_neg_iff [of s "'':''"] by (simp add: SplitHostPort_def Contains_single)

lemma stripPort_plain:
  assumes "first \<noteq> []" and "\<forall>c\<in>set first. \<not> isSpace c"
    and "CHR '':'' \<notin> set first" and "\<not> (HasPrefix first ''['' \<and> Contains first '']'')"
  shows "stripPort L first = (first, [])"
proof -
  have t: "TrimSpace first = first"
    using assms(2) by (rule TrimSpace_no_space)
  have b: "\<not> (HasPrefix first ''['' \<and> LastIndex first '']'' \<noteq> -1)"
    using assms(4) by (simp add: LastIndex_absent_iff)
  have s: "SplitHostPort first = None"
    using assms(3) by (rule SplitHostPort_no_colon)
  have p: "Split first CHR '':'' = [first]"
    using assms(3) by (rule Split_no_sep)
  show ?thesis
    using assms(1) b by (auto simp add: stripPort_def t s p)
qed

lemma unbracket_plain: "\<not> (HasPrefix s ''['' \<and> Contains s '']'') \<Longrightarrow> unbracket s = s"
  using HasSuffix_single_mem [of s "CHR '']''"] by (auto simp: unbracket_def Contains_single)

lemma hostPortOf_ok: "snd (snd (hostPortOf L s))"
  by (simp add: hostPortOf_def split: prod.splits)

lemma extract_comment: 
  "TrimSpace line = [] \<or> HasPrefix (TrimSpace line) ''#'' \<Longrightarrow> extractHostFromLine L line = ([], [], False)"
  by (auto simp: extractHostFromLine_def)

lemma extract_field:
  assumes "Fields (TrimSpace line) = first # rest" and "\<not> HasPrefix (TrimSpace line) ''#''"
  shows "extractHostFromLine L line =
     (if Contains first ''://'' then
        (case URLParseHost L first of
           None \<Rightarrow> ([], [], False)
         | Some uhost \<Rightarrow> if uhost = [] then ([], [], False) else hostPortOf L uhost)
      else if HasPrefix first ''['' \<and> Contains first '']'' then hostPortOf L first
      else if Contains first ''/'' then
        (case URLParseHost L (''http://'' @ first) of
           Some uhost \<Rightarrow> if uhost \<noteq> [] then hostPortOf L uhost else hostPortOf L first
         | None \<Rightarrow> hostPortOf L first)
      else hostPortOf L first)"
proof -
  from assms(1) have "TrimSpace line \<noteq> []"
    by (auto simp: Fields_Nil)
  with assms show ?thesis
    by (simp add: extractHostFromLine_def Let_def)
qed

lemma extract_ok_iff:
  "\<not> snd (snd (extractHostFromLine L line)) \<longleftrightarrow>
     TrimSpace line = [] \<or> HasPrefix (TrimSpace line) ''#''
     \<or> (Contains (hd (Fields (TrimSpace line))) ''://''
         \<and> (URLParseHost L (hd (Fields (TrimSpace line))) = None
            \<or> URLParseHost L (hd (Fields (TrimSpace line))) = Some []))"
proof (cases "TrimSpace line = [] \<or> HasPrefix (TrimSpace line) ''#''")
  case True
  then show ?thesis using extract_comment [OF True, of L] by auto
next
  case False
  then have "Fields (TrimSpace line) \<noteq> []"
    using Fields_TrimSpace_nonempty by blast
  then obtain first rest where f: "Fields (TrimSpace line) = first # rest"
    by (cases "Fields (TrimSpace line)") auto
  from False have np: "\<not> HasPrefix (TrimSpace line) ''#''" by simp
  show ?thesis
    using False
    by (auto simp: extract_field [OF f np] f hostPortOf_ok split: option.splits)
qed

lemma dropWhile_append_stop:
  "\<not> P a \<Longrightarrow> dropWhile P (xs @ a # ys) = dropWhile P xs @ a # ys"
  by (induction xs) auto

lemma set_TrimSpace: "set (TrimSpace s) \<subseteq> set s"
proof -
  have "set (TrimSpace s) \<subseteq> set (dropWhile isSpace s)"
    unfolding TrimSpace_def by (metis set_dropWhileD set_rev subsetI)
  also have "\<dots> \<subseteq> set s"
    by (meson set_dropWhileD subsetI)
  finally show ?thesis .
qed

lemma TrimSpace_dropWhile: "TrimSpace (dropWhile isSpace s) = TrimSpace s"
  by (simp add: TrimSpace_def)

lemma not_isSpace_hash: "\<not> isSpace CHR ''#''"
  by (simp add: isSpace_def)

lemma TrimSpace_comment:
  "TrimSpace (t @ CHR ''#'' # c)
     = dropWhile isSpace t @ CHR ''#'' # rev (dropWhile isSpace (rev c))"
proof -
  have "dropWhile isSpace (t @ CHR ''#'' # c) = dropWhile isSpace t @ CHR ''#'' # c"
    by (rule dropWhile_append_stop [of isSpace "CHR ''#''", OF not_isSpace_hash])
  moreover have "dropWhile isSpace (rev c @ CHR ''#'' # rev (dropWhile isSpace t))
      = dropWhile isSpace (rev c) @ CHR ''#'' # rev (dropWhile isSpace t)"
    by (rule dropWhile_append_stop [of isSpace "CHR ''#''", OF not_isSpace_hash])
  ultimately show ?thesis by (simp add: TrimSpace_def)
qed

lemma cleanScopeLine_no_hash:
  assumes "CHR ''#'' \<notin> set t"
  shows "cleanScopeLine t = (if TrimSpace t = [] then None else Some (TrimSpace t))"
proof -
  from assms set_TrimSpace [of t] have n: "CHR ''#'' \<notin> set (TrimSpace t)" by blast
  then have "\<not> HasPrefix (TrimSpace t) ''#''"
    by (cases "TrimSpace t") (auto simp: HasPrefix_def)
  moreover from n have "Index (TrimSpace t) ''#'' = -1"
    by (simp add: Index_def indexFrom_absent Contains_single)
  ultimately show ?thesis by (simp add: cleanScopeLine_def)
qed

lemma cleanScopeLine_comment:
  assumes "CHR ''#'' \<notin> set t"
  shows "cleanScopeLine (t @ CHR ''#'' # c) = cleanScopeLine t"
proof (cases "dropWhile isSpace t")
  case Nil
  have "TrimSpace t = []" unfolding TrimSpace_def Nil by simp
  moreover have "HasPrefix (TrimSpace (t @ CHR ''#'' # c)) ''#''"
    unfolding TrimSpace_comment Nil by (simp add: HasPrefix_def)
  ultimately show ?thesis
    using assms by (simp add: cleanScopeLine_no_hash) (simp add: cleanScopeLine_def Let_def)
next
  case (Cons x xs)
  from assms have nd: "CHR ''#'' \<notin> set (dropWhile isSpace t)"
    by (meson set_dropWhileD)
  with Cons have xh: "x \<noteq> CHR ''#''" by auto
  let ?tr = "TrimSpace (t @ CHR ''#'' # c)"
  have tr: "?tr = dropWhile isSpace t @ CHR ''#'' # rev (dropWhile isSpace (rev c))"
    by (rule TrimSpace_comment)
  have ne: "?tr \<noteq> []" by (simp add: tr)
  have np: "\<not> HasPrefix ?tr ''#''"
    using xh by (simp add: tr Cons HasPrefix_def)
  have ix: "Index ?tr ''#'' = int (length (dropWhile isSpace t))"
    unfolding tr Index_def using indexFrom_first [OF nd, of 0] by simp
  have tk: "take (nat (Index ?tr ''#'')) ?tr = dropWhile isSpace t"
    unfolding ix by (simp add: tr)
  have "cleanScopeLine (t @ CHR ''#'' # c)
      = (if TrimSpace t = [] then None else Some (TrimSpace t))"
    unfolding cleanScopeLine_def Let_def tk
    using ne np by (simp add: ix TrimSpace_dropWhile)
  then show ?thesis using assms by (simp add: cleanScopeLine_no_hash)
qed

lemma normalizeHost_no_error: "snd (normalizeHost L h) = None"
  by (simp add: normalizeHost_def Let_def split: option.splits)

lemma processLines_Cons:
  "processLines L (line # rest) scope reverse =
     (if snd (snd (extractHostFromLine L line))
         \<and> fst (normalizeHost L (fst (extractHostFromLine L line))) \<noteq> []
         \<and> (matchHost L (fst (normalizeHost L (fst (extractHostFromLine L line))))
               (fst (snd (extractHostFromLine L line))) scope \<noteq> reverse)
      then [line] else []) @ processLines L rest scope reverse"
proof -
  obtain h p ok where e: "extractHostFromLine L line = (h, p, ok)"
    by (metis prod_cases3)
  obtain n err where n: "normalizeHost L h = (n, err)"
    by (metis surj_pair)
  have r: "err = None"
    using normalizeHost_no_error [of L h] n by simp
  show ?thesis
    by (auto simp: e n r Let_def)
qed

lemma processLines_mem:
  "x \<in> set (processLines L lines scope reverse) \<Longrightarrow>
   snd (snd (extractHostFromLine L x))
   \<and> fst (normalizeHost L (fst (extractHostFromLine L x))) \<noteq> []"
proof (induction lines)
  case Nil
  then show ?case by simp
next
  case (Cons line rest)
  from Cons.prems show ?case
    unfolding processLines_Cons using Cons.IH by (auto split: if_splits)
qed

lemma scanScope_cong:
  "map cleanScopeLine xs = map cleanScopeLine ys \<Longrightarrow> scanScope L xs out = scanScope L ys out"
proof (induction xs arbitrary: ys out)
  case Nil
  then show ?case by simp
next
  case (Cons x xs)
  then obtain y ys' where ys: "ys = y # ys'"
    by (cases ys) auto
  with Cons.prems have h: "cleanScopeLine x = cleanScopeLine y"
    and t: "map cleanScopeLine xs = map cleanScopeLine ys'"
    by simp_all
  show ?case
    unfolding ys using h Cons.IH [OF t] by (simp split: option.splits)
qed

lemma processLines_filter:
  "processLines L lines scope reverse =
     filter (\<lambda>line. snd (snd (extractHostFromLine L line))
               \<and> fst (normalizeHost L (fst (extractHostFromLine L line))) \<noteq> []
               \<and> (matchHost L (fst (normalizeHost L (fst (extractHostFromLine L line))))
                      (fst (snd (extractHostFromLine L line))) scope \<longleftrightarrow> \<not> reverse))
            lines"
proof (induction lines)
  case Nil
  then show ?case by simp
next
  case (Cons line rest)
  show ?case
    unfolding processLines_Cons Cons.IH by auto
qed

section \<open>Lines that are dropped\<close>

text \<open>
  Claim C1, as the code has it. \<open>processLines\<close> skips a line whose extraction fails
  before it looks at the flag \<open>reverse\<close>: \<open>url.Parse\<close> rejects \<open>http://a:b/c\<close> (the port
  is not a number), the extraction returns \<open>ok = false\<close>, and the line is written
  neither without nor with inversion. The same holds for the line \<open>:80\<close>, whose host
  is extracted and empty.
\<close>

theorem processLines_counterexample:
  "URLParseHost reflib ''http://a:b/c'' = None
   \<and> extractHostFromLine reflib ''http://a:b/c'' = ([], [], False)
   \<and> processLines reflib [''http://a:b/c''] [] True = []
   \<and> processLines reflib [''http://a:b/c''] [] False = []
   \<and> extractHostFromLine reflib '':80'' = ([], ''80'', True)
   \<and> normalizeHost reflib [] = ([], None)
   \<and> processLines reflib ['':80''] [] True = []"
  by code_simp

text \<open>
  Claim C1, amended. Whatever the libraries do, for every list of input lines, every
  scope and both settings of the inversion flag: a line whose host cannot be extracted
  (\<open>ok = false\<close>) or whose normalized host is empty is never written; the lines written
  are, in their order and with their repetitions, exactly the other lines of the input
  whose normalized host matches the scope when inversion is off, and exactly the other
  lines whose normalized host does not match when inversion is on.
\<close>

theorem processLines_skips_unparsable:
  "(\<not> snd (snd (extractHostFromLine L line))
      \<or> fst (normalizeHost L (fst (extractHostFromLine L line))) = [] \<longrightarrow>
      line \<notin> set (processLines L lines scope reverse))
   \<and> processLines L lines scope reverse =
       filter (\<lambda>line. snd (snd (extractHostFromLine L line))
                 \<and> fst (normalizeHost L (fst (extractHostFromLine L line))) \<noteq> []
                 \<and> (matchHost L (fst (normalizeHost L (fst (extractHostFromLine L line))))
                        (fst (snd (extractHostFromLine L line))) scope \<longleftrightarrow> \<not> reverse))
              lines"
proof -
  have a: "\<not> snd (snd (extractHostFromLine L line))
      \<or> fst (normalizeHost L (fst (extractHostFromLine L line))) = [] \<longrightarrow>
      line \<notin> set (processLines L lines scope reverse)"
    using processLines_mem [of line L lines scope reverse] by blast
  from a processLines_filter [of L lines scope reverse] show ?thesis
    by (rule conjI)
qed

text \<open>
  On five input lines with the scope \<open>example.com\<close> and inversion on: the comment line
  is not written, and the line \<open>other.org\<close>, third of the input, is written.
\<close>

theorem processLines_skips_unparsable_witness:
  "\<not> snd (snd (extractHostFromLine reflib ''# note''))
   \<and> ''# note'' \<notin> set (processLines reflib
        [''example.com'', ''# note'', ''other.org'', ''http://a:b/c'', ''sub.example.com'']
        [parseScopeLine reflib ''example.com''] True)
   \<and> snd (snd (extractHostFromLine reflib ''other.org''))
   \<and> fst (normalizeHost reflib (fst (extractHostFromLine reflib ''other.org''))) \<noteq> []
   \<and> \<not> matchHost reflib (fst (normalizeHost reflib (fst (extractHostFromLine reflib ''other.org''))))
        (fst (snd (extractHostFromLine reflib ''other.org''))) [parseScopeLine reflib ''example.com'']
   \<and> ''other.org'' \<in> set (processLines reflib
        [''example.com'', ''# note'', ''other.org'', ''http://a:b/c'', ''sub.example.com'']
        [parseScopeLine reflib ''example.com''] True)
   \<and> processLines reflib
        [''example.com'', ''# note'', ''other.org'', ''http://a:b/c'', ''sub.example.com'']
        [parseScopeLine reflib ''example.com''] True
       = [''other.org'', ''sub.example.com'']"
proof -
  have a: "\<not> snd (snd (extractHostFromLine reflib ''# note''))"
    by code_simp
  have b: "snd (snd (extractHostFromLine reflib ''other.org''))"
    by code_simp
  have c: "fst (normalizeHost reflib (fst (extractHostFromLine reflib ''other.org''))) \<noteq> []"
    by code_simp
  have d: "\<not> matchHost reflib (fst (normalizeHost reflib (fst (extractHostFromLine reflib ''other.org''))))
        (fst (snd (extractHostFromLine reflib ''other.org''))) [parseScopeLine reflib ''example.com'']"
    by code_simp
  have g: "processLines reflib
        [''example.com'', ''# note'', ''other.org'', ''http://a:b/c'', ''sub.example.com'']
        [parseScopeLine reflib ''example.com''] True
       = [''other.org'', ''sub.example.com'']"
    by code_simp
  note T = processLines_skips_unparsable [of reflib _
      "[''example.com'', ''# note'', ''other.org'', ''http://a:b/c'', ''sub.example.com'']"
      "[parseScopeLine reflib ''example.com'']" True]
  from a T [of "''# note''"]
  have e: "''# note'' \<notin> set (processLines reflib
        [''example.com'', ''# note'', ''other.org'', ''http://a:b/c'', ''sub.example.com'']
        [parseScopeLine reflib ''example.com''] True)"
    by blast
  have "processLines reflib
        [''example.com'', ''# note'', ''other.org'', ''http://a:b/c'', ''sub.example.com'']
        [parseScopeLine reflib ''example.com''] True
      = filter (\<lambda>line. snd (snd (extractHostFromLine reflib line))
                 \<and> fst (normalizeHost reflib (fst (extractHostFromLine reflib line))) \<noteq> []
                 \<and> (matchHost reflib (fst (normalizeHost reflib (fst (extractHostFromLine reflib line))))
                        (fst (snd (extractHostFromLine reflib line)))
                        [parseScopeLine reflib ''example.com''] \<longleftrightarrow> \<not> True))
          [''example.com'', ''# note'', ''other.org'', ''http://a:b/c'', ''sub.example.com'']"
    using T [of "''# note''"] by (rule conjunct2)
  then have f: "''other.org'' \<in> set (processLines reflib
        [''example.com'', ''# note'', ''other.org'', ''http://a:b/c'', ''sub.example.com'']
        [parseScopeLine reflib ''example.com''] True)"
    using b c d by simp
  from a b c d e f g show ?thesis by simp
qed

section \<open>Fields parsed as URLs\<close>

text \<open>
  Claim C7, as the code has it. A field without \<open>://\<close> that contains \<open>/\<close> is parsed
  with the prefix \<open>http://\<close>, and when that parse fails the code falls through to
  \<open>stripPort\<close> on the field itself and returns \<open>ok = true\<close>: \<open>url.Parse\<close> rejects
  \<open>http://a:b/c\<close>, and the field \<open>a:b/c\<close> yields host \<open>a\<close> and port \<open>b/c\<close>.
\<close>

theorem extractHostFromLine_url_counterexample:
  "\<not> Contains ''a:b/c'' ''://'' \<and> Contains ''a:b/c'' ''/''
   \<and> URLParseHost reflib (''http://'' @ ''a:b/c'') = None
   \<and> extractHostFromLine reflib ''a:b/c'' = (''a'', ''b/c'', True)"
  by code_simp

text \<open>
  Claim C7, amended. Whatever the libraries do, for every line whose trimmed text is
  not empty and does not start with \<open>#\<close>, with first field \<open>first\<close>: if \<open>first\<close>
  contains \<open>://\<close> and \<open>url.Parse\<close> fails on it, the extraction returns \<open>ok = false\<close>;
  if \<open>first\<close> has no \<open>://\<close>, is not a bracketed literal, contains \<open>/\<close>, and \<open>url.Parse\<close>
  fails on \<open>http://\<close> followed by \<open>first\<close>, the field is not discarded: the extraction
  splits \<open>first\<close> itself into host and port and returns \<open>ok = true\<close>.
\<close>

theorem extractHostFromLine_url_failure:
  assumes "Fields (TrimSpace line) = first # rest"
    and "\<not> HasPrefix (TrimSpace line) ''#''"
  shows "(Contains first ''://'' \<and> URLParseHost L first = None \<longrightarrow>
            extractHostFromLine L line = ([], [], False))
         \<and> (\<not> Contains first ''://'' \<and> \<not> (HasPrefix first ''['' \<and> Contains first '']'')
              \<and> Contains first ''/'' \<and> URLParseHost L (''http://'' @ first) = None \<longrightarrow>
            extractHostFromLine L line = hostPortOf L first
            \<and> snd (snd (extractHostFromLine L line)))"
  unfolding extract_field [OF assms] using hostPortOf_ok [of L first] by simp

theorem extractHostFromLine_url_failure_witness:
  "Fields (TrimSpace ''  http://a:b/c [200]'') = [''http://a:b/c'', ''[200]'']
   \<and> \<not> HasPrefix (TrimSpace ''  http://a:b/c [200]'') ''#''
   \<and> Contains ''http://a:b/c'' ''://''
   \<and> URLParseHost reflib ''http://a:b/c'' = None
   \<and> extractHostFromLine reflib ''  http://a:b/c [200]'' = ([], [], False)
   \<and> Fields (TrimSpace ''a:b/c'') = [''a:b/c'']
   \<and> \<not> HasPrefix (TrimSpace ''a:b/c'') ''#''
   \<and> \<not> Contains ''a:b/c'' ''://''
   \<and> \<not> HasPrefix ''a:b/c'' ''[''
   \<and> Contains ''a:b/c'' ''/''
   \<and> URLParseHost reflib (''http://'' @ ''a:b/c'') = None
   \<and> extractHostFromLine reflib ''a:b/c'' = hostPortOf reflib ''a:b/c''
   \<and> snd (snd (extractHostFromLine reflib ''a:b/c''))"
proof -
  have a: "Fields (TrimSpace ''  http://a:b/c [200]'') = [''http://a:b/c'', ''[200]'']"
    by code_simp
  have b: "\<not> HasPrefix (TrimSpace ''  http://a:b/c [200]'') ''#''"
    by code_simp
  have c: "Contains ''http://a:b/c'' ''://''"
    by code_simp
  have d: "URLParseHost reflib ''http://a:b/c'' = None"
    by code_simp
  from c d extractHostFromLine_url_failure [OF a b, of reflib]
  have e: "extractHostFromLine reflib ''  http://a:b/c [200]'' = ([], [], False)"
    by blast
  have f: "Fields (TrimSpace ''a:b/c'') = [''a:b/c'']"
    by code_simp
  have g: "\<not> HasPrefix (TrimSpace ''a:b/c'') ''#''"
    by code_simp
  have h: "\<not> Contains ''a:b/c'' ''://''"
    by code_simp
  have i: "\<not> HasPrefix ''a:b/c'' ''[''"
    by code_simp
  have j: "Contains ''a:b/c'' ''/''"
    by code_simp
  have k: "URLParseHost reflib (''http://'' @ ''a:b/c'') = None"
    by code_simp
  from h i j k extractHostFromLine_url_failure [OF f g, of reflib]
  have l: "extractHostFromLine reflib ''a:b/c'' = hostPortOf reflib ''a:b/c''
      \<and> snd (snd (extractHostFromLine reflib ''a:b/c''))"
    by blast
  from a b c d e f g h i j k l show ?thesis by (simp add: hostPortOf_ok)
qed

section \<open>Comments in scope lines and in input lines\<close>

lemma stripPort_whole:
  assumes "first \<noteq> []" and "\<forall>c\<in>set first. \<not> isSpace c"
    and "\<not> (HasPrefix first ''['' \<and> Contains first '']'')"
    and "\<not> Contains first '':''
         \<or> (SplitHostPort first = None \<and> ParseIP L (last (Split first CHR '':'')) \<noteq> None)"
  shows "stripPort L first = (first, [])"
proof (cases "Contains first '':''")
  case False
  then have n: "CHR '':'' \<notin> set first" by (simp add: Contains_single)
  show ?thesis using assms(1,2) n assms(3) by (rule stripPort_plain)
next
  case True
  with assms(4) have s: "SplitHostPort first = None"
    and p: "ParseIP L (last (Split first CHR '':'')) \<noteq> None"
    by simp_all
  have t: "TrimSpace first = first"
    using assms(2) by (rule TrimSpace_no_space)
  have b: "\<not> (HasPrefix first ''['' \<and> LastIndex first '']'' \<noteq> -1)"
    using assms(3) by (simp add: LastIndex_absent_iff)
  show ?thesis
    using assms(1) b p by (auto simp add: stripPort_def t s)
qed

text \<open>
  Claim C10, as the code has it. The \<open>#\<close> of an input field is not cut off, but it
  does not always stay in the host, and the extraction can fail: in \<open>a:80#x\<close> it goes
  to the port, in \<open>http://a/#x\<close> it is the URL's fragment and is lost, and
  \<open>http://#x\<close> has an empty URL host, so the extraction returns \<open>ok = false\<close> for a line
  that is neither empty nor a comment.
\<close>

theorem extractHostFromLine_hash_counterexample:
  "extractHostFromLine reflib ''a:80#x'' = (''a'', ''80#x'', True)
   \<and> extractHostFromLine reflib ''http://a/#x'' = (''a'', [], True)
   \<and> extractHostFromLine reflib ''http://#x'' = ([], [], False)
   \<and> TrimSpace ''http://#x'' \<noteq> []
   \<and> \<not> HasPrefix (TrimSpace ''http://#x'') ''#''"
  by code_simp

text \<open>
  Claim C10, amended. Inline \<open>#\<close> comments are stripped from scope-file lines only.
  Whatever the libraries do: for every input line whose trimmed text does not start with
  \<open>#\<close> and whose first field contains a \<open>#\<close> and reaches the host/port splitter whole
  and leaves it whole, the extraction returns \<open>ok = true\<close>, an empty port and the whole
  field as host, the \<open>#\<close> and what follows it included. That is the case when the field
  \<^item> has no \<open>://\<close> and is not a bracketed literal (it does not both start with \<open>[\<close> and
    contain \<open>]\<close>),
  \<^item> has no \<open>/\<close>, or is rejected by \<open>url.Parse\<close> under the scheme \<open>http://\<close> or gets an
    empty URL host there, and
  \<^item> has no \<open>:\<close>, or is rejected by \<open>net.SplitHostPort\<close> while the segment behind its last
    \<open>:\<close> is an IP address.
  The extraction returns \<open>ok = false\<close> exactly for the empty lines, the lines whose
  trimmed text starts with \<open>#\<close>, and the lines whose first field contains \<open>://\<close> and is
  rejected by \<open>url.Parse\<close> or has an empty URL host. In a scope file, any line may be
  cut before its first \<open>#\<close> without a change to the scope that \<open>loadScope\<close> returns.
\<close>

theorem extractHostFromLine_keeps_hash:
  "(Fields (TrimSpace line) = first # rest \<and> \<not> HasPrefix (TrimSpace line) ''#''
      \<and> Contains first ''#''
      \<and> \<not> Contains first ''://''
      \<and> \<not> (HasPrefix first ''['' \<and> Contains first '']'')
      \<and> (\<not> Contains first ''/'' \<or> URLParseHost L (''http://'' @ first) = None
           \<or> URLParseHost L (''http://'' @ first) = Some [])
      \<and> (\<not> Contains first '':''
           \<or> (SplitHostPort first = None \<and> ParseIP L (last (Split first CHR '':'')) \<noteq> None))
      \<longrightarrow> extractHostFromLine L line = (first, [], True))
   \<and> (\<not> snd (snd (extractHostFromLine L line)) \<longleftrightarrow>
        TrimSpace line = [] \<or> HasPrefix (TrimSpace line) ''#''
        \<or> (Contains (hd (Fields (TrimSpace line))) ''://''
            \<and> (URLParseHost L (hd (Fields (TrimSpace line))) = None
               \<or> URLParseHost L (hd (Fields (TrimSpace line))) = Some [])))
   \<and> (\<not> Contains t ''#'' \<longrightarrow>
        loadScope L (Inr (before @ (t @ ''#'' @ c) # after, scanErr))
          = loadScope L (Inr (before @ t # after, scanErr)))"
proof -
  have a: "Fields (TrimSpace line) = first # rest \<and> \<not> HasPrefix (TrimSpace line) ''#''
      \<and> Contains first ''#''
      \<and> \<not> Contains first ''://''
      \<and> \<not> (HasPrefix first ''['' \<and> Contains first '']'')
      \<and> (\<not> Contains first ''/'' \<or> URLParseHost L (''http://'' @ first) = None
           \<or> URLParseHost L (''http://'' @ first) = Some [])
      \<and> (\<not> Contains first '':''
           \<or> (SplitHostPort first = None \<and> ParseIP L (last (Split first CHR '':'')) \<noteq> None))
      \<longrightarrow> extractHostFromLine L line = (first, [], True)"
  proof
    assume h: "Fields (TrimSpace line) = first # rest \<and> \<not> HasPrefix (TrimSpace line) ''#''
      \<and> Contains first ''#''
      \<and> \<not> Contains first ''://''
      \<and> \<not> (HasPrefix first ''['' \<and> Contains first '']'')
      \<and> (\<not> Contains first ''/'' \<or> URLParseHost L (''http://'' @ first) = None
           \<or> URLParseHost L (''http://'' @ first) = Some [])
      \<and> (\<not> Contains first '':''
           \<or> (SplitHostPort first = None \<and> ParseIP L (last (Split first CHR '':'')) \<noteq> None))"
    then have f: "Fields (TrimSpace line) = first # rest"
      and np: "\<not> HasPrefix (TrimSpace line) ''#''"
      and nu: "\<not> Contains first ''://''"
      and nb: "\<not> (HasPrefix first ''['' \<and> Contains first '']'')"
      and ns: "\<not> Contains first ''/'' \<or> URLParseHost L (''http://'' @ first) = None
           \<or> URLParseHost L (''http://'' @ first) = Some []"
      and nc: "\<not> Contains first '':''
           \<or> (SplitHostPort first = None \<and> ParseIP L (last (Split first CHR '':'')) \<noteq> None)"
      by simp_all
    from Fields_first [OF f] have ne: "first \<noteq> []" and sp: "\<forall>c\<in>set first. \<not> isSpace c"
      by simp_all
    have w: "stripPort L first = (first, [])"
      using ne sp nb nc by (rule stripPort_whole)
    have d: "hostPortOf L first = (first, [], True)"
      using w unbracket_plain [OF nb] by (simp add: hostPortOf_def)
    show "extractHostFromLine L line = (first, [], True)"
      unfolding extract_field [OF f np]
      using nu nb ns d by (auto split: option.splits)
  qed
  have b: "\<not> snd (snd (extractHostFromLine L line)) \<longleftrightarrow>
        TrimSpace line = [] \<or> HasPrefix (TrimSpace line) ''#''
        \<or> (Contains (hd (Fields (TrimSpace line))) ''://''
            \<and> (URLParseHost L (hd (Fields (TrimSpace line))) = None
               \<or> URLParseHost L (hd (Fields (TrimSpace line))) = Some []))"
    by (rule extract_ok_iff)
  have c: "\<not> Contains t ''#'' \<longrightarrow>
        loadScope L (Inr (before @ (t @ ''#'' @ c) # after, scanErr))
          = loadScope L (Inr (before @ t # after, scanErr))"
  proof
    assume "\<not> Contains t ''#''"
    then have "cleanScopeLine (t @ CHR ''#'' # c) = cleanScopeLine t"
      using cleanScopeLine_comment [of t c] by (simp add: Contains_single)
    then have "map cleanScopeLine (before @ (t @ ''#'' @ c) # after)
        = map cleanScopeLine (before @ t # after)"
      by simp
    then have "scanScope L (before @ (t @ ''#'' @ c) # after) []
        = scanScope L (before @ t # after) []"
      by (rule scanScope_cong)
    then show "loadScope L (Inr (before @ (t @ ''#'' @ c) # after, scanErr))
          = loadScope L (Inr (before @ t # after, scanErr))"
      by (simp add: loadScope_def)
  qed
  from a b c show ?thesis by blast
qed

text \<open>
  On the input line \<open>a]#frag  [200]\<close>, whose first field holds a closing bracket and a
  \<open>#\<close>; on the input line \<open>a#b::10.0.0.2\<close>, which \<open>net.SplitHostPort\<close> rejects and
  whose last segment is an IP address; and on a scope file of three lines whose second
  line carries a comment.
\<close>

theorem extractHostFromLine_keeps_hash_witness:
  "Fields (TrimSpace '' a]#frag  [200]'') = [''a]#frag'', ''[200]'']
   \<and> \<not> HasPrefix (TrimSpace '' a]#frag  [200]'') ''#''
   \<and> Contains ''a]#frag'' ''#''
   \<and> \<not> Contains ''a]#frag'' ''://''
   \<and> \<not> (HasPrefix ''a]#frag'' ''['' \<and> Contains ''a]#frag'' '']'')
   \<and> \<not> Contains ''a]#frag'' ''/''
   \<and> \<not> Contains ''a]#frag'' '':''
   \<and> extractHostFromLine reflib '' a]#frag  [200]'' = (''a]#frag'', [], True)
   \<and> Fields (TrimSpace ''a#b::10.0.0.2'') = [''a#b::10.0.0.2'']
   \<and> \<not> HasPrefix (TrimSpace ''a#b::10.0.0.2'') ''#''
   \<and> Contains ''a#b::10.0.0.2'' ''#''
   \<and> \<not> Contains ''a#b::10.0.0.2'' ''://''
   \<and> \<not> (HasPrefix ''a#b::10.0.0.2'' ''['' \<and> Contains ''a#b::10.0.0.2'' '']'')
   \<and> \<not> Contains ''a#b::10.0.0.2'' ''/''
   \<and> SplitHostPort ''a#b::10.0.0.2'' = None
   \<and> ParseIP reflib (last (Split ''a#b::10.0.0.2'' CHR '':'')) \<noteq> None
   \<and> extractHostFromLine reflib ''a#b::10.0.0.2'' = (''a#b::10.0.0.2'', [], True)
   \<and> \<not> Contains ''*.test.com '' ''#''
   \<and> loadScope reflib
        (Inr ([''example.com''] @ (''*.test.com '' @ ''#'' @ '' all of test'') # [''10.0.0.2:443''],
              None))
       = Inr [\<lparr>raw = ''example.com'', kind = scopeExact, base = ''example.com'', port = [],
               patternLabels = []\<rparr>,
              \<lparr>raw = ''*.test.com'', kind = scopeLeadingWildcard, base = ''test.com'', port = [],
               patternLabels = []\<rparr>,
              \<lparr>raw = ''10.0.0.2:443'', kind = scopeExact, base = ''10.0.0.2'', port = ''443'',
               patternLabels = []\<rparr>]"
proof -
  have a: "Fields (TrimSpace '' a]#frag  [200]'') = [''a]#frag'', ''[200]'']"
    by code_simp
  have b: "\<not> HasPrefix (TrimSpace '' a]#frag  [200]'') ''#''"
    by code_simp
  have c: "Contains ''a]#frag'' ''#''"
    by code_simp
  have d: "\<not> Contains ''a]#frag'' '':''"
    by code_simp
  have e: "\<not> Contains ''a]#frag'' ''/''"
    by code_simp
  have f: "\<not> (HasPrefix ''a]#frag'' ''['' \<and> Contains ''a]#frag'' '']'')"
    by code_simp
  have u: "\<not> Contains ''a]#frag'' ''://''"
    by code_simp
  have g: "\<not> Contains ''*.test.com '' ''#''"
    by code_simp
  have h: "loadScope reflib (Inr ([''example.com''] @ ''*.test.com '' # [''10.0.0.2:443''], None))
       = Inr [\<lparr>raw = ''example.com'', kind = scopeExact, base = ''example.com'', port = [],
               patternLabels = []\<rparr>,
              \<lparr>raw = ''*.test.com'', kind = scopeLeadingWildcard, base = ''test.com'', port = [],
               patternLabels = []\<rparr>,
              \<lparr>raw = ''10.0.0.2:443'', kind = scopeExact, base = ''10.0.0.2'', port = ''443'',
               patternLabels = []\<rparr>]"
    by code_simp
  note T = extractHostFromLine_keeps_hash [of "'' a]#frag  [200]''"
      "''a]#frag''" "[''[200]'']" reflib "''*.test.com ''" "[''example.com'']" "'' all of test''"
      "[''10.0.0.2:443'']" None]
  from T a b c d e f u
  have i: "extractHostFromLine reflib '' a]#frag  [200]'' = (''a]#frag'', [], True)"
    by blast
  from T g
  have k: "loadScope reflib
        (Inr ([''example.com''] @ (''*.test.com '' @ ''#'' @ '' all of test'') # [''10.0.0.2:443''],
              None))
      = loadScope reflib (Inr ([''example.com''] @ ''*.test.com '' # [''10.0.0.2:443''], None))"
    by blast
  from k h have j: "loadScope reflib
        (Inr ([''example.com''] @ (''*.test.com '' @ ''#'' @ '' all of test'') # [''10.0.0.2:443''],
              None))
       = Inr [\<lparr>raw = ''example.com'', kind = scopeExact, base = ''example.com'', port = [],
               patternLabels = []\<rparr>,
              \<lparr>raw = ''*.test.com'', kind = scopeLeadingWildcard, base = ''test.com'', port = [],
               patternLabels = []\<rparr>,
              \<lparr>raw = ''10.0.0.2:443'', kind = scopeExact, base = ''10.0.0.2'', port = ''443'',
               patternLabels = []\<rparr>]"
    by (rule trans)
  have a2: "Fields (TrimSpace ''a#b::10.0.0.2'') = [''a#b::10.0.0.2'']"
    by code_simp
  have b2: "\<not> HasPrefix (TrimSpace ''a#b::10.0.0.2'') ''#''"
    by code_simp
  have c2: "Contains ''a#b::10.0.0.2'' ''#''"
    by code_simp
  have u2: "\<not> Contains ''a#b::10.0.0.2'' ''://''"
    by code_simp
  have f2: "\<not> (HasPrefix ''a#b::10.0.0.2'' ''['' \<and> Contains ''a#b::10.0.0.2'' '']'')"
    by code_simp
  have e2: "\<not> Contains ''a#b::10.0.0.2'' ''/''"
    by code_simp
  have s2: "SplitHostPort ''a#b::10.0.0.2'' = None"
    by code_simp
  have p2: "ParseIP reflib (last (Split ''a#b::10.0.0.2'' CHR '':'')) \<noteq> None"
    by code_simp
  note T2 = extractHostFromLine_keeps_hash [of "''a#b::10.0.0.2''"
      "''a#b::10.0.0.2''" "[]" reflib "[]" "[]" "[]" "[]" None]
  from T2 a2 b2 c2 u2 f2 e2 s2 p2
  have i2: "extractHostFromLine reflib ''a#b::10.0.0.2'' = (''a#b::10.0.0.2'', [], True)"
    by blast
  from a b c d e f u g i j a2 b2 c2 u2 f2 e2 s2 p2 i2 show ?thesis by simp
qed


section \<open>Unbracketed IPv6 literals\<close>

text \<open>
  What the fallback of \<open>stripPort\<close> does on an unbracketed string that
  \<open>net.SplitHostPort\<close> rejects: it splits at the last colon exactly when there is a colon
  and \<open>net.ParseIP\<close> rejects the segment behind it. A literal with an embedded IPv4 tail
  is kept whole.
\<close>

lemma stripPort_fallback:
  assumes "TrimSpace h = h" and "h \<noteq> []" and "\<not> HasPrefix h ''[''"
    and "SplitHostPort h = None"
  shows "stripPort L h =
           (if 1 < length (Split h CHR '':'') \<and> ParseIP L (last (Split h CHR '':'')) = None
            then (Join (butlast (Split h CHR '':'')) '':'', last (Split h CHR '':''))
            else (h, []))"
  using assms by (simp add: stripPort_def Let_def)

lemma stripPort_embedded_ipv4:
  "stripPort reflib ''::ffff:10.0.0.2'' = (''::ffff:10.0.0.2'', [])"
  by code_simp

text \<open>
  Claim C6. The fallback of \<open>stripPort\<close> tests only the segment behind the last colon
  with \<open>net.ParseIP\<close>. For the literal \<open>::1\<close> that segment is \<open>1\<close>, which is no IP
  address, so whenever \<open>net.ParseIP\<close> rejects \<open>1\<close> the literal is split into the host
  \<open>:\<close> and the port \<open>1\<close>, and \<open>extractHostFromLine\<close> returns that pair for the input line
  \<open>::1\<close>.
\<close>

theorem stripPort_splits_ipv6_literal:
  assumes "ParseIP L ''1'' = None"
  shows "SplitHostPort ''::1'' = None
         \<and> stripPort L ''::1'' = ('':'', ''1'')
         \<and> extractHostFromLine L ''::1'' = ('':'', ''1'', True)"
proof -
  have t: "TrimSpace ''::1'' = ''::1''" by code_simp
  have p: "\<not> HasPrefix ''::1'' ''[''" by code_simp
  have s: "SplitHostPort ''::1'' = None" by code_simp
  have parts: "Split ''::1'' CHR '':'' = [[], [], ''1'']" by code_simp
  have sp: "stripPort L ''::1'' = ('':'', ''1'')"
    using assms by (simp add: stripPort_def t p s parts)
  have f: "Fields (TrimSpace ''::1'') = [''::1'']" by code_simp
  have h: "\<not> HasPrefix (TrimSpace ''::1'') ''#''" by code_simp
  have u: "\<not> Contains ''::1'' ''://''" by code_simp
  have sl: "\<not> Contains ''::1'' ''/''" by code_simp
  have ub: "unbracket '':'' = '':''" by code_simp
  have "extractHostFromLine L ''::1'' = ('':'', ''1'', True)"
    unfolding extract_field [OF f h] by (simp add: u p sl hostPortOf_def sp ub)
  with s sp show ?thesis by simp
qed

theorem stripPort_splits_ipv6_literal_witness:
  "ParseIP reflib ''1'' = None
   \<and> stripPort reflib ''::1'' = ('':'', ''1'')
   \<and> extractHostFromLine reflib ''::1'' = ('':'', ''1'', True)"
proof -
  have a: "ParseIP reflib ''1'' = None"
    by code_simp
  from stripPort_splits_ipv6_literal [OF a] a show ?thesis by simp
qed

section \<open>Normalizing a host twice\<close>

lemma TrimSuffix_none: "\<not> HasSuffix s suf \<Longrightarrow> TrimSuffix s suf = s"
  by (simp add: TrimSuffix_def)

lemma normalizeHost_empty: "TrimSpace h = [] \<Longrightarrow> normalizeHost L h = ([], None)"
  by (simp add: normalizeHost_def)

lemma normalizeHost_ip:
  "TrimSpace h \<noteq> [] \<Longrightarrow> ParseIP L (TrimSuffix (TrimSpace h) ''.'') = Some ip \<Longrightarrow>
   normalizeHost L h = (IPString L ip, None)"
  by (simp add: normalizeHost_def Let_def)

lemma normalizeHost_name:
  "TrimSpace h \<noteq> [] \<Longrightarrow> ParseIP L (TrimSuffix (TrimSpace h) ''.'') = None \<Longrightarrow>
   normalizeHost L h = (ToLower L (toASCIIOrKeep L (TrimSuffix (TrimSpace h) ''.'')), None)"
  by (simp add: normalizeHost_def Let_def)

lemma toASCIIOrKeep_fixed:
  "ToASCII L s = None \<or> ToASCII L s = Some s \<Longrightarrow> toASCIIOrKeep L s = s"
  by (auto simp: toASCIIOrKeep_def)

lemma lowerByte_idem: "lowerByte (lowerByte c) = lowerByte c"
  by (simp add: lowerByte_def Let_def)

lemma lowerByte_ascii: "(of_char c :: nat) < 128 \<Longrightarrow> (of_char (lowerByte c) :: nat) < 128"
  by (simp add: lowerByte_def Let_def)

lemma isASCII_lower: "isASCII s \<Longrightarrow> isASCII (map lowerByte s)"
  by (induction s) (simp_all add: isASCII_def lowerByte_ascii)

lemma ToLower_idem_ascii: "isASCII a \<Longrightarrow> ToLower L (ToLower L a) = ToLower L a"
  by (simp add: ToLower_def isASCII_lower lowerByte_idem)

text \<open>A host that one more pass of \<open>normalizeHost\<close> returns as it is.\<close>

lemma normalizeHost_fixed:
  assumes "TrimSpace r = r" and "\<not> HasSuffix r ''.''" and "ParseIP L r = None"
    and "ToASCII L r = None \<or> ToASCII L r = Some r" and "ToLower L r = r"
  shows "normalizeHost L r = (r, None)"
proof (cases "r = []")
  case True
  then show ?thesis using assms(1) by (simp add: normalizeHost_empty)
next
  case False
  then show ?thesis
    using assms by (simp add: normalizeHost_name toASCIIOrKeep_fixed TrimSuffix_none)
qed

text \<open>
  Claim C8, as the code has it. \<open>normalizeHost\<close> strips one trailing dot, so a host with
  two of them is not yet in normal form after one pass: \<open>a..\<close> becomes \<open>a.\<close>, and \<open>a.\<close>
  becomes \<open>a\<close>.
\<close>

theorem normalizeHost_idempotent_counterexample:
  "fst (normalizeHost reflib ''a..'') = ''a.''
   \<and> fst (normalizeHost reflib (fst (normalizeHost reflib ''a..''))) = ''a''"
  by code_simp

text \<open>
  Claim C8, amended. Let \<open>s\<close> be the input \<open>h\<close> after \<open>TrimSpace\<close> and the removal of one
  trailing dot. \<open>normalizeHost\<close> applied twice gives the same host as applied once
  \<^item> when \<open>s\<close> is an IP literal, provided the canonical text that \<open>IP.String\<close> prints for
    its address is not empty, has no white space around it and no trailing dot, and is
    parsed back by \<open>net.ParseIP\<close> to the same address;
  \<^item> when \<open>s\<close> is not an IP literal, provided the host \<open>r\<close> that the first pass returns
    (the IDNA conversion of \<open>s\<close>, or \<open>s\<close> itself where the conversion fails, in lower
    case) has no white space around it and no further trailing dot, is rejected by
    \<open>net.ParseIP\<close>, and \<open>idna.ToASCII\<close> fails on it or returns it unchanged; where the
    converted name holds a byte outside ASCII, \<open>r\<close> must also be its own lower-case form.
\<close>

theorem normalizeHost_idempotent:
  assumes s: "s = TrimSuffix (TrimSpace h) ''.''"
    and r: "r = ToLower L (toASCIIOrKeep L s)"
    and ip: "\<forall>ip. ParseIP L s = Some ip \<longrightarrow>
               IPString L ip \<noteq> [] \<and> TrimSpace (IPString L ip) = IPString L ip
               \<and> \<not> HasSuffix (IPString L ip) ''.''
               \<and> ParseIP L (IPString L ip) = Some ip"
    and nm: "ParseIP L s = None \<longrightarrow>
               TrimSpace r = r \<and> \<not> HasSuffix r ''.''
               \<and> ParseIP L r = None
               \<and> (ToASCII L r = None \<or> ToASCII L r = Some r)
               \<and> (isASCII (toASCIIOrKeep L s) \<or> ToLower L r = r)"
  shows "fst (normalizeHost L (fst (normalizeHost L h))) = fst (normalizeHost L h)"
proof (cases "TrimSpace h = []")
  case True
  have "TrimSpace [] = []" by (simp add: TrimSpace_def)
  then show ?thesis
    using True by (simp add: normalizeHost_empty)
next
  case False
  show ?thesis
  proof (cases "ParseIP L s")
    case (Some a)
    let ?c = "IPString L a"
    from ip Some have c: "?c \<noteq> []" "TrimSpace ?c = ?c" "\<not> HasSuffix ?c ''.''"
      "ParseIP L ?c = Some a"
      by simp_all
    have first: "normalizeHost L h = (?c, None)"
      using False Some s by (simp add: normalizeHost_ip)
    have "normalizeHost L ?c = (?c, None)"
      using c by (simp add: normalizeHost_ip TrimSuffix_none)
    with first show ?thesis by simp
  next
    case None
    from nm None have n: "TrimSpace r = r" "\<not> HasSuffix r ''.''" "ParseIP L r = None"
      "ToASCII L r = None \<or> ToASCII L r = Some r"
      and l: "isASCII (toASCIIOrKeep L s) \<or> ToLower L r = r"
      by simp_all
    have lr: "ToLower L r = r"
      using l r ToLower_idem_ascii [of "toASCIIOrKeep L s" L] by auto
    have first: "normalizeHost L h = (r, None)"
      using False None s r by (simp add: normalizeHost_name)
    have "normalizeHost L r = (r, None)"
      using n lr by (rule normalizeHost_fixed)
    with first show ?thesis by simp
  qed
qed

text \<open>
  The three cases on concrete hosts: the name \<open>Example.COM.\<close> with white space around
  it, the internationalized name \<open>bucher.de.\<close> written with u-umlaut, which the first pass
  converts to \<open>xn--bcher-kva.de\<close>, and the IP literal \<open>10.0.0.2.\<close> written with a root dot.
\<close>

theorem normalizeHost_idempotent_witness:
  "ParseIP reflib (TrimSuffix (TrimSpace ''  Example.COM.  '') ''.'') = None
   \<and> fst (normalizeHost reflib ''  Example.COM.  '') = ''example.com''
   \<and> fst (normalizeHost reflib (fst (normalizeHost reflib ''  Example.COM.  '')))
       = fst (normalizeHost reflib ''  Example.COM.  '')
   \<and> ParseIP reflib (TrimSuffix (TrimSpace (''b'' @ [CHR 0xC3, CHR 0xBC] @ ''cher.de.'')) ''.'') = None
   \<and> ToASCII reflib (TrimSuffix (TrimSpace (''b'' @ [CHR 0xC3, CHR 0xBC] @ ''cher.de.'')) ''.'')
       = Some ''xn--bcher-kva.de''
   \<and> fst (normalizeHost reflib (''b'' @ [CHR 0xC3, CHR 0xBC] @ ''cher.de.'')) = ''xn--bcher-kva.de''
   \<and> fst (normalizeHost reflib
            (fst (normalizeHost reflib (''b'' @ [CHR 0xC3, CHR 0xBC] @ ''cher.de.''))))
       = fst (normalizeHost reflib (''b'' @ [CHR 0xC3, CHR 0xBC] @ ''cher.de.''))
   \<and> ParseIP reflib (TrimSuffix (TrimSpace ''10.0.0.2.'') ''.'') = Some [10, 0, 0, 2]
   \<and> fst (normalizeHost reflib ''10.0.0.2.'') = ''10.0.0.2''
   \<and> fst (normalizeHost reflib (fst (normalizeHost reflib ''10.0.0.2.'')))
       = fst (normalizeHost reflib ''10.0.0.2.'')"
proof -
  have s1: "TrimSuffix (TrimSpace ''  Example.COM.  '') ''.'' = ''Example.COM''"
    by code_simp
  have r1: "ToLower reflib (toASCIIOrKeep reflib ''Example.COM'') = ''example.com''"
    by code_simp
  have a1: "ParseIP reflib ''Example.COM'' = None"
    by code_simp
  have a2: "TrimSpace ''example.com'' = ''example.com''"
    by code_simp
  have a3: "\<not> HasSuffix ''example.com'' ''.''"
    by code_simp
  have a4: "ParseIP reflib ''example.com'' = None"
    by code_simp
  have a5: "ToASCII reflib ''example.com'' = Some ''example.com''"
    by code_simp
  have a6: "isASCII (toASCIIOrKeep reflib ''Example.COM'')"
    by code_simp
  have a7: "fst (normalizeHost reflib ''  Example.COM.  '') = ''example.com''"
    by code_simp
  have i1: "fst (normalizeHost reflib (fst (normalizeHost reflib ''  Example.COM.  '')))
       = fst (normalizeHost reflib ''  Example.COM.  '')"
    by (rule normalizeHost_idempotent [where s = "''Example.COM''" and r = "''example.com''"])
      (simp_all add: s1 r1 a1 a2 a3 a4 a5 a6)
  have s3: "TrimSuffix (TrimSpace (''b'' @ [CHR 0xC3, CHR 0xBC] @ ''cher.de.'')) ''.''
      = ''b'' @ [CHR 0xC3, CHR 0xBC] @ ''cher.de''"
    by code_simp
  have r3: "ToLower reflib (toASCIIOrKeep reflib (''b'' @ [CHR 0xC3, CHR 0xBC] @ ''cher.de''))
      = ''xn--bcher-kva.de''"
    by code_simp
  have c1: "ParseIP reflib (''b'' @ [CHR 0xC3, CHR 0xBC] @ ''cher.de'') = None"
    by code_simp
  have c2: "TrimSpace ''xn--bcher-kva.de'' = ''xn--bcher-kva.de''"
    by code_simp
  have c3: "\<not> HasSuffix ''xn--bcher-kva.de'' ''.''"
    by code_simp
  have c4: "ParseIP reflib ''xn--bcher-kva.de'' = None"
    by code_simp
  have c5: "ToASCII reflib ''xn--bcher-kva.de'' = Some ''xn--bcher-kva.de''"
    by code_simp
  have c6: "isASCII (toASCIIOrKeep reflib (''b'' @ [CHR 0xC3, CHR 0xBC] @ ''cher.de''))"
    by code_simp
  have c7: "fst (normalizeHost reflib (''b'' @ [CHR 0xC3, CHR 0xBC] @ ''cher.de.'')) = ''xn--bcher-kva.de''"
    by code_simp
  have c8: "ToASCII reflib (''b'' @ [CHR 0xC3, CHR 0xBC] @ ''cher.de'') = Some ''xn--bcher-kva.de''"
    by code_simp
  have i3: "fst (normalizeHost reflib
            (fst (normalizeHost reflib (''b'' @ [CHR 0xC3, CHR 0xBC] @ ''cher.de.''))))
       = fst (normalizeHost reflib (''b'' @ [CHR 0xC3, CHR 0xBC] @ ''cher.de.''))"
    by (rule normalizeHost_idempotent
        [where s = "''b'' @ [CHR 0xC3, CHR 0xBC] @ ''cher.de''" and r = "''xn--bcher-kva.de''"])
      (simp_all only: s3 r3 c1 c2 c3 c4 c5 c6 simp_thms option.distinct)
  have s2: "TrimSuffix (TrimSpace ''10.0.0.2.'') ''.'' = ''10.0.0.2''"
    by code_simp
  have b1: "ParseIP reflib ''10.0.0.2'' = Some [10, 0, 0, 2]"
    by code_simp
  have b2: "IPString reflib [10, 0, 0, 2] = ''10.0.0.2''"
    by code_simp
  have b3: "TrimSpace ''10.0.0.2'' = ''10.0.0.2''"
    by code_simp
  have b4: "\<not> HasSuffix ''10.0.0.2'' ''.''"
    by code_simp
  have b5: "fst (normalizeHost reflib ''10.0.0.2.'') = ''10.0.0.2''"
    by code_simp
  have i2: "fst (normalizeHost reflib (fst (normalizeHost reflib ''10.0.0.2.'')))
       = fst (normalizeHost reflib ''10.0.0.2.'')"
    by (rule normalizeHost_idempotent [where s = "''10.0.0.2''" and r = "ToLower reflib (toASCIIOrKeep reflib ''10.0.0.2'')"])
      (simp_all add: s2 b1 b2 b3 b4)
  from s1 a1 a7 i1 s3 c1 c8 c7 i3 s2 b1 b5 i2 show ?thesis by simp
qed

section \<open>The worked example of the README\<close>

text \<open>
  The scope file and the list of the README, run through \<open>loadScope\<close> and \<open>processLines\<close>
  with the instance \<open>reflib\<close>, give the two outputs the README prints, line for line.
\<close>

lemma readme_scope:
  "loadScope reflib (Inr ([''example.com'', ''*.test.com'', ''staging.*.domain.com''], None))
     = Inr [\<lparr>raw = ''example.com'', kind = scopeExact, base = ''example.com'', port = [],
              patternLabels = []\<rparr>,
            \<lparr>raw = ''*.test.com'', kind = scopeLeadingWildcard, base = ''test.com'', port = [],
              patternLabels = []\<rparr>,
            \<lparr>raw = ''staging.*.domain.com'', kind = scopePatternWildcard, base = [], port = [],
              patternLabels = [''staging'', ''*'', ''domain'', ''com'']\<rparr>]"
  by code_simp

lemma readme_matched:
  "processLines reflib
     [''https://example.com'', ''http://example.com:8080'', ''ftp://files.example.com'',
      ''https://example.com/path/to/page?query=string'', ''example.com'', ''test.com'',
      ''sub.test.com'', ''domain.com:80'', ''http://domain.com:80'',
      ''deep.nested.sub.test.com'', ''https://example.com/login [200]'',
      ''staging.eu.domain.com'', ''staging.domain.com'', ''production.eu.domain.com'',
      ''external-site.com'', ''api.other-service.net'', ''dev.internal.net'',
      ''example.com.'', ''EXAMPLE.COM'', ''Http://Example.Com:80/path'']
     (scanScope reflib [''example.com'', ''*.test.com'', ''staging.*.domain.com''] [])
     False
   = [''https://example.com'', ''http://example.com:8080'',
      ''https://example.com/path/to/page?query=string'', ''example.com'', ''test.com'',
      ''sub.test.com'', ''deep.nested.sub.test.com'', ''https://example.com/login [200]'',
      ''staging.eu.domain.com'', ''example.com.'', ''EXAMPLE.COM'',
      ''Http://Example.Com:80/path'']"
  by code_simp

lemma readme_inverted:
  "processLines reflib
     [''https://example.com'', ''http://example.com:8080'', ''ftp://files.example.com'',
      ''https://example.com/path/to/page?query=string'', ''example.com'', ''test.com'',
      ''sub.test.com'', ''domain.com:80'', ''http://domain.com:80'',
      ''deep.nested.sub.test.com'', ''https://example.com/login [200]'',
      ''staging.eu.domain.com'', ''staging.domain.com'', ''production.eu.domain.com'',
      ''external-site.com'', ''api.other-service.net'', ''dev.internal.net'',
      ''example.com.'', ''EXAMPLE.COM'', ''Http://Example.Com:80/path'']
     (scanScope reflib [''example.com'', ''*.test.com'', ''staging.*.domain.com''] [])
     True
   = [''ftp://files.example.com'', ''domain.com:80'', ''http://domain.com:80'',
      ''staging.domain.com'', ''production.eu.domain.com'', ''external-site.com'',
      ''api.other-service.net'', ''dev.internal.net'']"
  by code_simp

lemma bracketed_ipv6_input:
  "extractHostFromLine reflib ''[::1]:8080'' = (''::1'', ''8080'', True)
   \<and> extractHostFromLine reflib ''ftp://files.example.com'' = (''files.example.com'', [], True)"
  by code_simp

end
